theory Spec2Isabelle
  imports Complex_Main
begin

section \<open>JavaScript values and the built-ins the services call\<close>

text \<open>
  A JavaScript number is a double: \<open>NaN\<close>, the two infinities, or a finite value
  (a real here). Only \<open>typeof\<close>, \<open>> 0\<close> and the result of \<open>parseInt\<close> are ever
  observed by the code below.
\<close>

datatype number = NaN | Infinity | NegInfinity | Finite real

datatype jsval =
    JUndefined
  | JNull
  | JBool bool
  | JNumber number
  | JString string
  | JArray "jsval list"
  | JObject "(string \<times> jsval) list"

text \<open>The request payload \<open>params\<close> is an object: its own properties by name.\<close>

type_synonym params = "string \<rightharpoonup> jsval"

definition getProp :: "params \<Rightarrow> string \<Rightarrow> jsval" where
  \<comment> \<open>\<open>params.k\<close>: a missing property reads as \<open>undefined\<close>.\<close>
  "getProp p k = (case p k of None \<Rightarrow> JUndefined | Some v \<Rightarrow> v)"

fun typeof :: "jsval \<Rightarrow> string" where
  "typeof JUndefined = ''undefined''"
| "typeof JNull = ''object''"
| "typeof (JBool b) = ''boolean''"
| "typeof (JNumber n) = ''number''"
| "typeof (JString s) = ''string''"
| "typeof (JArray xs) = ''object''"
| "typeof (JObject kvs) = ''object''"

fun gt_zero :: "number \<Rightarrow> bool" where
  \<comment> \<open>\<open>n > 0\<close> on numbers; every comparison with \<open>NaN\<close> is false.\<close>
  "gt_zero NaN = False"
| "gt_zero Infinity = True"
| "gt_zero NegInfinity = False"
| "gt_zero (Finite r) = (0 < r)"

definition toLowerChar :: "char \<Rightarrow> char" where
  \<comment> \<open>the ASCII letters; no other character lower-cases to a single character of
      \<open>athan-api-\<close>, which is all the result is compared with\<close>
  "toLowerChar c =
     (case map_of (zip ''ABCDEFGHIJKLMNOPQRSTUVWXYZ'' ''abcdefghijklmnopqrstuvwxyz'') c of
        Some l \<Rightarrow> l
      | None \<Rightarrow> c)"

definition toLowerCase :: "string \<Rightarrow> string" where
  "toLowerCase s = map toLowerChar s"

definition startsWith :: "string \<Rightarrow> string \<Rightarrow> bool" where
  "startsWith s p = (take (length p) s = p)"

fun indexOf_from :: "string \<Rightarrow> string \<Rightarrow> nat \<Rightarrow> int" where
  "indexOf_from [] p i = (if p = [] then int i else - 1)"
| "indexOf_from (c # cs) p i =
     (if startsWith (c # cs) p then int i else indexOf_from cs p (Suc i))"

definition indexOf :: "string \<Rightarrow> string \<Rightarrow> int" where
  \<comment> \<open>\<open>s.indexOf(p)\<close>: the first position at which \<open>p\<close> occurs in \<open>s\<close>, or \<open>-1\<close>.\<close>
  "indexOf s p = indexOf_from s p 0"

definition charAt :: "string \<Rightarrow> int \<Rightarrow> string" where
  \<comment> \<open>\<open>s.charAt(i)\<close>: a one-character string, empty when \<open>i\<close> is out of range.\<close>
  "charAt s i = (if 0 \<le> i \<and> i < int (length s) then [s ! nat i] else [])"

definition isWhiteSpace :: "char \<Rightarrow> bool" where
  \<comment> \<open>the ASCII white space\<close>
  "isWhiteSpace c = (c \<in> set [CHR '' '', CHR 0x09, CHR 0x0A, CHR 0x0B, CHR 0x0C, CHR 0x0D])"

definition digitValue :: "char \<Rightarrow> nat option" where
  "digitValue c =
     map_of (zip ''0123456789abcdefABCDEF''
               [0, 1, 2, 3, 4, 5, 6, 7, 8, 9, 10, 11, 12, 13, 14, 15, 10, 11, 12, 13, 14, 15]) c"

definition isDigitIn :: "nat \<Rightarrow> char \<Rightarrow> bool" where
  "isDigitIn radix c = (case digitValue c of None \<Rightarrow> False | Some d \<Rightarrow> d < radix)"

definition digitsValue :: "nat \<Rightarrow> string \<Rightarrow> nat" where
  "digitsValue radix ds = foldl (\<lambda>acc c. radix * acc + the (digitValue c)) 0 ds"

definition parseInt :: "string \<Rightarrow> number" where
  \<comment> \<open>\<open>parseInt(s)\<close> with no radix argument: leading white space, an optional sign,
      an optional \<open>0x\<close>, then the longest run of digits; \<open>NaN\<close> when that run is empty.
      (The value is exact; a double rounds it above \<open>2^53\<close>.)\<close>
  "parseInt s =
     (let t = dropWhile isWhiteSpace s;
          negative = (take 1 t = ''-'');
          u = (if take 1 t = ''-'' \<or> take 1 t = ''+'' then drop 1 t else t);
          hex = (take 2 u = ''0x'' \<or> take 2 u = ''0X'');
          radix = (if hex then 16 else 10);
          v = (if hex then drop 2 u else u);
          ds = takeWhile (isDigitIn radix) v
      in if ds = [] then NaN
         else Finite ((if negative then - 1 else 1) * real (digitsValue radix ds)))"

fun slice :: "'a list \<Rightarrow> int \<Rightarrow> int \<Rightarrow> 'a list" where
  \<comment> \<open>\<open>xs.slice(b, e)\<close>; a negative index counts from the end.\<close>
  "slice xs b e =
     (let n = int (length xs);
          k = (if b < 0 then max (n + b) 0 else min b n);
          final = (if e < 0 then max (n + e) 0 else min e n)
      in take (nat (final - k)) (drop (nat k) xs))"

section \<open>The runtime: clock, string conversion and the two HTTP clients\<close>

record js_date =
  getFullYear :: int
  getMonth :: nat    \<comment> \<open>0 .. 11\<close>
  getDate :: nat     \<comment> \<open>1 .. 31\<close>

text \<open>An entry of the upstream prayer calendar, as \<open>fetchData\<close> reads it.\<close>

record upstream_timings =
  up_Fajr :: string
  up_Sunrise :: string
  up_Dhuhr :: string
  up_Asr :: string
  up_Maghrib :: string
  up_Isha :: string

record upstream_day =
  date_gregorian_date :: string    \<comment> \<open>\<open>d.date.gregorian.date\<close>\<close>
  up_timings :: upstream_timings   \<comment> \<open>\<open>d.timings\<close>\<close>

text \<open>An entry of the upstream Gregorian-to-Hijri table, as the synchronizer reads it.\<close>

record gtoh_day =
  gregorian_date :: string   \<comment> \<open>\<open>day.gregorian.date\<close>\<close>
  hijri_date :: string       \<comment> \<open>\<open>day.hijri.date\<close>\<close>

text \<open>
  What the code takes from its environment. \<open>toString\<close> is the conversion a template
  literal applies to an interpolated value; the two \<open>get\<close> functions give
  \<open>response.data.data\<close> for a URL, or \<open>None\<close> when the request fails.
\<close>

record runtime =
  today :: js_date
  toString :: "jsval \<Rightarrow> string"
  encodeURIComponent :: "string \<Rightarrow> string"
  httpService_get :: "string \<Rightarrow> upstream_day list option"
  axios_get :: "string \<Rightarrow> gtoh_day list option"

datatype error =
    NoStrategyFound           \<comment> \<open>\<open>Invalid parameters for fetching prayer times ...\<close>\<close>
  | UnknownStrategy           \<comment> \<open>\<open>Strategy "..." not found ...\<close>\<close>
  | ParametersNotValid        \<comment> \<open>\<open>Parameters are not valid for the "..." strategy ...\<close>\<close>
  | UpstreamCallFailed        \<comment> \<open>the HTTP request is rejected\<close>
  | StorageUnavailable        \<comment> \<open>\<open>Database service not ready.\<close>\<close>
  | PersistenceWriteFailed    \<comment> \<open>the database refuses a statement\<close>
  | TypeError                 \<comment> \<open>a property of \<open>undefined\<close> is read\<close>

section \<open>prayer.service: PrayerService\<close>

record timings =
  Fajr :: string
  Shurooq :: string
  Dhuhr :: string
  Asr :: string
  Maghrib :: string
  Isha :: string

record prayer_day =
  date :: string
  timings :: timings

definition normalize :: "upstream_day \<Rightarrow> prayer_day" where
  \<comment> \<open>the function mapped over \<open>data\<close> in \<open>fetchData\<close>\<close>
  "normalize d =
     \<lparr> date = date_gregorian_date d,
       timings = \<lparr> Fajr = up_Fajr (up_timings d),
                   Shurooq = up_Sunrise (up_timings d),
                   Dhuhr = up_Dhuhr (up_timings d),
                   Asr = up_Asr (up_timings d),
                   Maghrib = up_Maghrib (up_timings d),
                   Isha = up_Isha (up_timings d) \<rparr> \<rparr>"

text \<open>
  Every function that may call upstream returns the URLs it requested, in order, with
  its outcome.
\<close>

type_synonym 'a fetched = "string list \<times> (error + 'a)"

definition fetchData :: "runtime \<Rightarrow> string \<Rightarrow> prayer_day list fetched" where
  "fetchData rt url =
     (case httpService_get rt url of
        None \<Rightarrow> ([url], Inl UpstreamCallFailed)
      | Some data \<Rightarrow>
          (let d = int (getDate (today rt));
               next7Days = slice data (d - 1) (d + 6)
           in ([url], Inr (map normalize data))))"

definition month_year :: "runtime \<Rightarrow> string" where
  \<comment> \<open>the tail \<open>&month=${month}&year=${year}\<close> of both calendar URLs\<close>
  "month_year rt =
     ''&month='' @ toString rt (JNumber (Finite (real (getMonth (today rt) + 1))))
     @ ''&year='' @ toString rt (JNumber (Finite (real_of_int (getFullYear (today rt)))))"

definition getByCoordinates :: "runtime \<Rightarrow> jsval \<Rightarrow> jsval \<Rightarrow> jsval \<Rightarrow> prayer_day list fetched" where
  "getByCoordinates rt lat lon method =
     fetchData rt
       (''http://api.aladhan.com/v1/calendar?latitude='' @ toString rt lat
        @ ''&longitude='' @ toString rt lon
        @ ''&method='' @ toString rt method
        @ month_year rt)"

definition getByCity :: "runtime \<Rightarrow> jsval \<Rightarrow> jsval \<Rightarrow> jsval \<Rightarrow> prayer_day list fetched" where
  "getByCity rt city country method =
     fetchData rt
       (''http://api.aladhan.com/v1/calendarByCity?city=''
        @ encodeURIComponent rt (toString rt city)
        @ ''&country='' @ encodeURIComponent rt (toString rt country)
        @ ''&method='' @ toString rt method
        @ month_year rt)"

section \<open>athan.service: the strategies and AthanService\<close>

datatype strategy = CoordinatesPrayerTimeByAthanStrategy | CityPrayerTimeByAthanStrategy

fun canHandle :: "strategy \<Rightarrow> params \<Rightarrow> bool" where
  "canHandle CityPrayerTimeByAthanStrategy p = True"
| "canHandle CoordinatesPrayerTimeByAthanStrategy p =
     (typeof (getProp p ''lat'') = ''number'' \<and>
      typeof (getProp p ''lon'') = ''number'' \<and>
      typeof (getProp p ''method'') = ''number'' \<and>
      typeof (getProp p ''duration'') = ''number'' \<and>
      (case getProp p ''duration'' of JNumber n \<Rightarrow> gt_zero n | _ \<Rightarrow> False))"

fun strategy_getPrayerTimes :: "runtime \<Rightarrow> strategy \<Rightarrow> params \<Rightarrow> prayer_day list fetched" where
  "strategy_getPrayerTimes rt CityPrayerTimeByAthanStrategy p =
     getByCity rt (getProp p ''city'') (getProp p ''country'') (getProp p ''method'')"
| "strategy_getPrayerTimes rt CoordinatesPrayerTimeByAthanStrategy p =
     getByCoordinates rt (getProp p ''lat'') (getProp p ''lon'') (getProp p ''method'')"

definition strategies :: "strategy list" where
  "strategies = [CoordinatesPrayerTimeByAthanStrategy, CityPrayerTimeByAthanStrategy]"

definition getPrayerTimes :: "runtime \<Rightarrow> params \<Rightarrow> prayer_day list fetched" where
  "getPrayerTimes rt p =
     (case find (\<lambda>s. canHandle s p) strategies of
        None \<Rightarrow> ([], Inl NoStrategyFound)
      | Some strategy \<Rightarrow> strategy_getPrayerTimes rt strategy p)"

text \<open>
  \<open>executeStrategyByName\<close> assigns to \<open>params['method']\<close>, so the payload it leaves
  behind is returned first.
\<close>

definition executeStrategyByName ::
  "runtime \<Rightarrow> string \<Rightarrow> params \<Rightarrow> params \<times> prayer_day list fetched" where
  "executeStrategyByName rt strategyName p =
     (if indexOf (toLowerCase strategyName) ''athan-api-'' = 0 then
        (let selectedStrategy = CityPrayerTimeByAthanStrategy;
             p' = p(''method'' \<mapsto>
                      JNumber (parseInt (charAt strategyName (int (length strategyName) - 1))))
         in if \<not> canHandle selectedStrategy p' then (p', [], Inl ParametersNotValid)
            else (p', strategy_getPrayerTimes rt selectedStrategy p'))
      else (p, [], Inl UnknownStrategy))"

section \<open>calendar.service: HijriService\<close>

fun js_split :: "char \<Rightarrow> string \<Rightarrow> string list" where
  \<comment> \<open>\<open>s.split(sep)\<close> for a one-character separator; \<open>''.split('-')\<close> is \<open>['']\<close>.\<close>
  "js_split sep [] = [[]]"
| "js_split sep (c # cs) =
     (if c = sep then [] # js_split sep cs
      else (case js_split sep cs of
              [] \<Rightarrow> [[c]]
            | part # parts \<Rightarrow> (c # part) # parts))"

definition element :: "'a list \<Rightarrow> int \<Rightarrow> 'a option" where
  \<comment> \<open>\<open>xs[i]\<close>; \<open>None\<close> is \<open>undefined\<close>, the value of every index out of range.\<close>
  "element xs i = (if 0 \<le> i \<and> i < int (length xs) then Some (xs ! nat i) else None)"

fun join :: "string option list \<Rightarrow> string \<Rightarrow> string" where
  \<comment> \<open>\<open>xs.join(sep)\<close>; an \<open>undefined\<close> element contributes the empty string.\<close>
  "join [] sep = []"
| "join [x] sep = (case x of None \<Rightarrow> [] | Some s \<Rightarrow> s)"
| "join (x # y # ys) sep = (case x of None \<Rightarrow> [] | Some s \<Rightarrow> s) @ sep @ join (y # ys) sep"

definition interpolate :: "string option \<Rightarrow> string" where
  \<comment> \<open>\<open>${x}\<close> in a template literal, for a string or \<open>undefined\<close>.\<close>
  "interpolate x = (case x of None \<Rightarrow> ''undefined'' | Some s \<Rightarrow> s)"

definition formatDate :: "string \<Rightarrow> string" where
  "formatDate dateString =
     (let parts = js_split CHR ''-'' dateString
      in join [element parts 2, element parts 1, element parts 0] ''-'')"

text \<open>
  \<open>results[month] = { first: days[0], last: days[days.length - 1] }\<close>: the object
  \<open>results\<close> is the list of its entries in key order, which is the order of insertion
  as the keys \<open>1, 2, ...\<close> are added ascending.
\<close>

type_synonym announcements = "(nat \<times> gtoh_day option \<times> gtoh_day option) list"

definition gToHCalendar_url :: "runtime \<Rightarrow> nat \<Rightarrow> jsval \<Rightarrow> string" where
  "gToHCalendar_url rt month GregoYear =
     ''https://api.aladhan.com/v1/gToHCalendar/''
     @ toString rt (JNumber (Finite (real month))) @ ''/'' @ toString rt GregoYear"

function fetchMonthlyAnnouncements_loop ::
  "runtime \<Rightarrow> jsval \<Rightarrow> nat \<Rightarrow> announcements \<Rightarrow> string list \<Rightarrow> announcements fetched" where
  "fetchMonthlyAnnouncements_loop rt GregoYear month results requested =
     (if month \<le> 12 then
        (let url = gToHCalendar_url rt month GregoYear
         in case axios_get rt url of
              None \<Rightarrow> (requested @ [url], Inl UpstreamCallFailed)
            | Some days \<Rightarrow>
                fetchMonthlyAnnouncements_loop rt GregoYear (Suc month)
                  (results @ [(month, element days 0, element days (int (length days) - 1))])
                  (requested @ [url]))
      else (requested, Inr results))"
  by pat_completeness auto
termination
  by (relation "measure (\<lambda>(rt, GregoYear, month, results, requested). 13 - month)") auto

declare fetchMonthlyAnnouncements_loop.simps [simp del]

definition fetchMonthlyAnnouncements :: "runtime \<Rightarrow> jsval \<Rightarrow> announcements fetched" where
  "fetchMonthlyAnnouncements rt GregoYear = fetchMonthlyAnnouncements_loop rt GregoYear 1 [] []"

text \<open>
  Modelled from the spec: the table \<open>hijri_calendar\<close>, whose declaration is not in the
  sources. Its rows are unique in the column \<open>month\<close>, so the table is a map from the
  value of \<open>month\<close> to the pair \<open>(hijri_first_day, hijri_last_day)\<close>.
\<close>

type_synonym hijri_calendar = "string \<rightharpoonup> string \<times> string"

definition insert_hijri_calendar ::
  "hijri_calendar \<Rightarrow> string \<Rightarrow> string \<Rightarrow> string \<Rightarrow> hijri_calendar" where
  \<comment> \<open>\<open>INSERT INTO hijri_calendar (month, hijri_first_day, hijri_last_day) VALUES (?, ?, ?)
      ON DUPLICATE KEY UPDATE hijri_first_day=hijri_first_day, hijri_last_day=hijri_last_day\<close>\<close>
  "insert_hijri_calendar table month hijri_first_day hijri_last_day =
     (case table month of
        None \<Rightarrow> table(month \<mapsto> (hijri_first_day, hijri_last_day))
      | Some (stored_first_day, stored_last_day) \<Rightarrow>
          table(month \<mapsto> (stored_first_day, stored_last_day)))"

text \<open>
  The loop \<open>for (const month in calendar)\<close>. The pool is \<open>None\<close> until it is
  initialised; \<open>pool.execute\<close> on it is then a \<open>TypeError\<close>, as is reading
  \<open>.gregorian\<close> or \<open>.hijri\<close> of an \<open>undefined\<close> day. Whether the database accepts
  a statement in a given state of the table (the column types and any further constraint
  are in the declaration that is missing) is the parameter \<open>accepts\<close>; nothing catches
  the rejection of \<open>pool.execute\<close>, so a refused statement ends the run before
  \<open>return answer\<close>. What was written before a failure stays written, so the pool is
  returned with every outcome.
\<close>

fun update_loop ::
  "(hijri_calendar \<Rightarrow> string list \<Rightarrow> bool) \<Rightarrow> hijri_calendar option \<Rightarrow> announcements \<Rightarrow>
     string list list \<Rightarrow> hijri_calendar option \<times> (error + string list list)" where
  "update_loop accepts pool [] answer = (pool, Inr answer)"
| "update_loop accepts pool ((month, firstDay, lastDay) # rest) answer =
     (case firstDay of
        None \<Rightarrow> (pool, Inl TypeError)
      | Some f \<Rightarrow>
          (case lastDay of
             None \<Rightarrow> (pool, Inl TypeError)
           | Some l \<Rightarrow>
               (let params = [formatDate (gregorian_date f),
                              formatDate (hijri_date f),
                              formatDate (hijri_date l)]
                in case pool of
                     None \<Rightarrow> (pool, Inl TypeError)
                   | Some table \<Rightarrow>
                       (if accepts table params
                        then update_loop accepts
                               (Some (insert_hijri_calendar table
                                        (params ! 0) (params ! 1) (params ! 2)))
                               rest (answer @ [params])
                        else (pool, Inl PersistenceWriteFailed)))))"

definition updateOfficialHijriCalendar ::
  "(hijri_calendar \<Rightarrow> string list \<Rightarrow> bool) \<Rightarrow> runtime \<Rightarrow> hijri_calendar option \<Rightarrow> jsval \<Rightarrow>
     string list \<times> hijri_calendar option \<times> (error + string list list option)" where
  \<comment> \<open>the result \<open>Inr None\<close> is the early \<open>return;\<close> of \<open>undefined\<close>\<close>
  "updateOfficialHijriCalendar accepts rt pool gregoYear =
     (case fetchMonthlyAnnouncements rt gregoYear of
        (requested, Inl e) \<Rightarrow> (requested, pool, Inl e)
      | (requested, Inr calendar) \<Rightarrow>
          (if length calendar = 0 then (requested, pool, Inr None)
           else (case update_loop accepts pool calendar [] of
                   (pool', Inl e) \<Rightarrow> (requested, pool', Inl e)
                 | (pool', Inr answer) \<Rightarrow> (requested, pool', Inr (Some answer)))))"

subsection \<open>What a synchronization is to compute and store\<close>

text \<open>
  Stated apart from the loops, to compare them with: the triple of a month's day
  sequence, the twelve triples of a year, and the table after a list of statements.
\<close>

definition boundary :: "gtoh_day list \<Rightarrow> string list" where
  "boundary days =
     [formatDate (gregorian_date (hd days)),
      formatDate (hijri_date (hd days)),
      formatDate (hijri_date (last days))]"

definition boundaries :: "runtime \<Rightarrow> jsval \<Rightarrow> string list list" where
  "boundaries rt year =
     map (\<lambda>month. boundary (the (axios_get rt (gToHCalendar_url rt month year)))) [1..<13]"

fun insert_all :: "hijri_calendar \<Rightarrow> string list list \<Rightarrow> hijri_calendar" where
  "insert_all table [] = table"
| "insert_all table (params # rest) =
     insert_all (insert_hijri_calendar table (params ! 0) (params ! 1) (params ! 2)) rest"

section \<open>db.service: DbService.insertData\<close>

definition hexDigit :: "nat \<Rightarrow> char" where
  "hexDigit n = ''0123456789abcdef'' ! n"

definition escape :: "char \<Rightarrow> string" where
  \<comment> \<open>one character inside a JSON string literal, as \<open>JSON.stringify\<close> writes it\<close>
  "escape c =
     (if c = CHR 0x22 then [CHR 0x5C, CHR 0x22]
      else if c = CHR 0x5C then [CHR 0x5C, CHR 0x5C]
      else if c = CHR 0x08 then [CHR 0x5C, CHR ''b'']
      else if c = CHR 0x0C then [CHR 0x5C, CHR ''f'']
      else if c = CHR 0x0A then [CHR 0x5C, CHR ''n'']
      else if c = CHR 0x0D then [CHR 0x5C, CHR ''r'']
      else if c = CHR 0x09 then [CHR 0x5C, CHR ''t'']
      else if (of_char c :: nat) < 32 then
        [CHR 0x5C, CHR ''u'', CHR ''0'', CHR ''0'',
         hexDigit (of_char c div 16), hexDigit (of_char c mod 16)]
      else [c])"

definition quoteJSONString :: "string \<Rightarrow> string" where
  "quoteJSONString s = [CHR 0x22] @ concat (map escape s) @ [CHR 0x22]"

definition JSON_stringify :: "timings \<Rightarrow> string" where
  \<comment> \<open>\<open>JSON.stringify(timings)\<close>: the six properties in the order \<open>fetchData\<close> creates them\<close>
  \<open>JSON_stringify t =
     ''{"Fajr":'' @ quoteJSONString (Fajr t)
     @ '',"Shurooq":'' @ quoteJSONString (Shurooq t)
     @ '',"Dhuhr":'' @ quoteJSONString (Dhuhr t)
     @ '',"Asr":'' @ quoteJSONString (Asr t)
     @ '',"Maghrib":'' @ quoteJSONString (Maghrib t)
     @ '',"Isha":'' @ quoteJSONString (Isha t)
     @ ''}''\<close>

definition formattedDate :: "string \<Rightarrow> string" where
  \<comment> \<open>\<open>const [day, month, year] = date.split('-')\<close>, then \<open>`${year}-${month}-${day}`\<close>\<close>
  "formattedDate dateString =
     (let parts = js_split CHR ''-'' dateString;
          day = element parts 0;
          month = element parts 1;
          year = element parts 2
      in interpolate year @ ''-'' @ interpolate month @ ''-'' @ interpolate day)"

text \<open>
  A row of \<open>athan_calendar\<close> is \<open>(athan_school_id, city_id, date, data)\<close>. The table's
  declaration is not in the sources, so whether the database accepts an \<open>INSERT\<close> in a
  given state of the table is the parameter \<open>accepts\<close>; a refused statement is the
  error that \<open>insertData\<close> logs and throws again.
\<close>

type_synonym athan_row = "int \<times> int \<times> string \<times> string"

type_synonym athan_calendar = "athan_row list"

definition toInsert :: "int \<Rightarrow> int \<Rightarrow> prayer_day \<Rightarrow> athan_row" where
  "toInsert athan_school_id city_id record =
     (athan_school_id, city_id, formattedDate (date record), JSON_stringify (timings record))"

fun insertData_loop ::
  "(athan_calendar \<Rightarrow> athan_row \<Rightarrow> bool) \<Rightarrow> athan_calendar \<Rightarrow> int \<Rightarrow> int \<Rightarrow>
     prayer_day list \<Rightarrow> athan_calendar \<times> (error + unit)" where
  "insertData_loop accepts table athan_school_id city_id [] = (table, Inr ())"
| "insertData_loop accepts table athan_school_id city_id (record # rest) =
     (let row = toInsert athan_school_id city_id record
      in if accepts table row
         then insertData_loop accepts (table @ [row]) athan_school_id city_id rest
         else (table, Inl PersistenceWriteFailed))"

definition insertData ::
  "(athan_calendar \<Rightarrow> athan_row \<Rightarrow> bool) \<Rightarrow> athan_calendar option \<Rightarrow> int \<Rightarrow> int \<Rightarrow>
     prayer_day list \<Rightarrow> athan_calendar option \<times> (error + unit)" where
  "insertData accepts pool athan_school_id city_id data =
     (case pool of
        None \<Rightarrow> (None, Inl StorageUnavailable)
      | Some table \<Rightarrow>
          (case insertData_loop accepts table athan_school_id city_id data of
             (table', outcome) \<Rightarrow> (Some table', outcome)))"

subsection \<open>Reading the serialised timings back\<close>

text \<open>
  A reader for the text \<open>JSON_stringify\<close> writes. It is not part of the service; that it
  returns the record that was written shows that the stored text determines the map.
\<close>

definition unescapeChar :: "char \<Rightarrow> char option" where
  "unescapeChar e =
     map_of [(CHR 0x22, CHR 0x22), (CHR 0x5C, CHR 0x5C), (CHR ''b'', CHR 0x08),
             (CHR ''f'', CHR 0x0C), (CHR ''n'', CHR 0x0A), (CHR ''r'', CHR 0x0D),
             (CHR ''t'', CHR 0x09)] e"

definition hexValue :: "char \<Rightarrow> nat" where
  "hexValue c = (case digitValue c of None \<Rightarrow> 0 | Some d \<Rightarrow> d)"

fun readStringBody :: "string \<Rightarrow> (string \<times> string) option" where
  \<comment> \<open>the characters of a string literal after its opening quote, and the text after
      its closing quote\<close>
  "readStringBody [] = None"
| "readStringBody (c # cs) =
     (if c = CHR 0x22 then Some ([], cs)
      else if c = CHR 0x5C then
        (case cs of
           [] \<Rightarrow> None
         | e # rest \<Rightarrow>
             (if e = CHR ''u'' then
                (case rest of
                   a # b # x # y # rest' \<Rightarrow>
                     (case readStringBody rest' of
                        None \<Rightarrow> None
                      | Some (s, r) \<Rightarrow>
                          Some (char_of (4096 * hexValue a + 256 * hexValue b
                                          + 16 * hexValue x + hexValue y) # s, r))
                 | _ \<Rightarrow> None)
              else
                (case unescapeChar e of
                   None \<Rightarrow> None
                 | Some ch \<Rightarrow>
                     (case readStringBody rest of
                        None \<Rightarrow> None
                      | Some (s, r) \<Rightarrow> Some (ch # s, r)))))
      else (case readStringBody cs of
              None \<Rightarrow> None
            | Some (s, r) \<Rightarrow> Some (c # s, r)))"

definition readMember :: "string \<Rightarrow> string \<Rightarrow> (string \<times> string) option" where
  \<comment> \<open>the text \<open>lead\<close>, then a string literal\<close>
  "readMember lead s =
     (if startsWith s (lead @ [CHR 0x22]) then readStringBody (drop (length lead + 1) s)
      else None)"

definition readTimings :: "string \<Rightarrow> timings option" where
  \<open>readTimings s =
     (case readMember ''{"Fajr":'' s of None \<Rightarrow> None | Some (v1, r1) \<Rightarrow>
     (case readMember '',"Shurooq":'' r1 of None \<Rightarrow> None | Some (v2, r2) \<Rightarrow>
     (case readMember '',"Dhuhr":'' r2 of None \<Rightarrow> None | Some (v3, r3) \<Rightarrow>
     (case readMember '',"Asr":'' r3 of None \<Rightarrow> None | Some (v4, r4) \<Rightarrow>
     (case readMember '',"Maghrib":'' r4 of None \<Rightarrow> None | Some (v5, r5) \<Rightarrow>
     (case readMember '',"Isha":'' r5 of None \<Rightarrow> None | Some (v6, r6) \<Rightarrow>
        (if r6 = ''}''
         then Some \<lparr> Fajr = v1, Shurooq = v2, Dhuhr = v3, Asr = v4, Maghrib = v5, Isha = v6 \<rparr>
         else None)))))))\<close>

section \<open>A concrete runtime for the examples\<close>

definition demo_toString :: "jsval \<Rightarrow> string" where
  "demo_toString v =
     (case v of
        JString s \<Rightarrow> s
      | JNumber n \<Rightarrow>
          (case map_of [(Finite 1, ''1''), (Finite 2, ''2''), (Finite 3, ''3''), (Finite 4, ''4''),
                        (Finite 5, ''5''), (Finite 6, ''6''), (Finite 7, ''7''), (Finite 8, ''8''),
                        (Finite 9, ''9''), (Finite 10, ''10''), (Finite 11, ''11''),
                        (Finite 12, ''12''), (Finite 2024, ''2024''), (Finite 2025, ''2025'')] n of
             None \<Rightarrow> ''NaN''
           | Some s \<Rightarrow> s)
      | _ \<Rightarrow> ''undefined'')"

definition demo_timings :: upstream_timings where
  "demo_timings = \<lparr> up_Fajr = ''04:51'', up_Sunrise = ''06:31'', up_Dhuhr = ''13:38'',
                    up_Asr = ''17:18'', up_Maghrib = ''20:36'', up_Isha = ''22:04'' \<rparr>"

definition demo_month :: "upstream_day list" where
  "demo_month = [\<lparr> date_gregorian_date = ''24-07-2024'', up_timings = demo_timings \<rparr>,
                 \<lparr> date_gregorian_date = ''25-07-2024'', up_timings = demo_timings \<rparr>]"

definition demo_httpService_get :: "string \<Rightarrow> upstream_day list option" where
  "demo_httpService_get url =
     (if url = ''http://api.aladhan.com/v1/calendarByCity?city=Rabat&country=Morocco&method=3&month=7&year=2024''
         \<or> url = ''http://api.aladhan.com/v1/calendarByCity?city=Rabat&country=Morocco&method=2&month=7&year=2024''
         \<or> url = ''http://api.aladhan.com/v1/calendar?latitude=3&longitude=4&method=2&month=7&year=2024''
      then Some demo_month else None)"

definition demo_axios_get :: "string \<Rightarrow> gtoh_day list option" where
  \<comment> \<open>for month \<open>m\<close> of a year: its first day, a day inside it, its last day\<close>
  "demo_axios_get url =
     (if startsWith url ''https://api.aladhan.com/v1/gToHCalendar/'' then
        (let rest = drop (length ''https://api.aladhan.com/v1/gToHCalendar/'') url;
             m = takeWhile (\<lambda>c. c \<noteq> CHR ''/'') rest;
             year = drop (length m + 1) rest;
             mm = (if length m = 1 then ''0'' @ m else m);
             hijri = (if year = ''2024'' then ''1445'' else ''1446'')
         in Some [\<lparr> gregorian_date = year @ ''-'' @ mm @ ''-01'', hijri_date = hijri @ ''-'' @ mm @ ''-19'' \<rparr>,
                  \<lparr> gregorian_date = year @ ''-'' @ mm @ ''-02'', hijri_date = hijri @ ''-'' @ mm @ ''-20'' \<rparr>,
                  \<lparr> gregorian_date = year @ ''-'' @ mm @ ''-28'', hijri_date = hijri @ ''-'' @ mm @ ''-17'' \<rparr>])
      else None)"

definition demo_runtime :: runtime where
  "demo_runtime =
     \<lparr> today = \<lparr> getFullYear = 2024, getMonth = 6, getDate = 25 \<rparr>,
       toString = demo_toString,
       encodeURIComponent = (\<lambda>s. s),
       httpService_get = demo_httpService_get,
       axios_get = demo_axios_get \<rparr>"

definition demo_city_request :: params where
  "demo_city_request =
     [''city'' \<mapsto> JString ''Rabat'', ''country'' \<mapsto> JString ''Morocco'',
      ''method'' \<mapsto> JNumber (Finite 5), ''duration'' \<mapsto> JNumber (Finite 30)]"

definition demo_coordinates_request :: "real \<Rightarrow> params" where
  "demo_coordinates_request duration =
     [''lat'' \<mapsto> JNumber (Finite 3), ''lon'' \<mapsto> JNumber (Finite 4),
      ''method'' \<mapsto> JNumber (Finite 2), ''duration'' \<mapsto> JNumber (Finite duration)]"

definition demo_table :: hijri_calendar where
  \<comment> \<open>a table that already holds a row for January 2024\<close>
  "demo_table = [''01-01-2024'' \<mapsto> (''20-06-1445'', ''19-07-1445'')]"

definition demo_accepts_all :: "hijri_calendar \<Rightarrow> string list \<Rightarrow> bool" where
  \<comment> \<open>a database that accepts every statement on \<open>hijri_calendar\<close>\<close>
  "demo_accepts_all table params = True"

definition demo_refuses_march :: "hijri_calendar \<Rightarrow> string list \<Rightarrow> bool" where
  \<comment> \<open>a database that refuses the statement for March 2024\<close>
  "demo_refuses_march table params = (params ! 0 \<noteq> ''01-03-2024'')"

definition demo_accepts :: "athan_calendar \<Rightarrow> athan_row \<Rightarrow> bool" where
  \<comment> \<open>a database that refuses a second row for the same school, city and date\<close>
  "demo_accepts table row =
     ((fst row, fst (snd row), fst (snd (snd row)))
        \<notin> set (map (\<lambda>stored. (fst stored, fst (snd stored), fst (snd (snd stored)))) table))"

section \<open>Properties of the built-ins\<close>

lemma indexOf_from_range: "indexOf_from s p i = - 1 \<or> int i \<le> indexOf_from s p i"
  by (induction s p i rule: indexOf_from.induct) auto

lemma indexOf_zero_iff: "indexOf s p = 0 \<longleftrightarrow> startsWith s p"
proof (cases s)
  case Nil
  then show ?thesis by (auto simp: indexOf_def startsWith_def)
next
  case (Cons c cs)
  have "indexOf_from cs p (Suc 0) \<noteq> 0"
    using indexOf_from_range [of cs p "Suc 0"] by auto
  with Cons show ?thesis by (simp add: indexOf_def)
qed

lemma toLowerCase_prefix:
  assumes "startsWith s ''athan-api-''"
  shows "startsWith (toLowerCase s) ''athan-api-''"
proof -
  from assms have h: "take (length ''athan-api-'') s = ''athan-api-''"
    unfolding startsWith_def .
  have "take (length ''athan-api-'') (map toLowerChar s) = map toLowerChar ''athan-api-''"
    by (simp only: take_map h)
  moreover have "map toLowerChar ''athan-api-'' = ''athan-api-''"
    by (simp add: toLowerChar_def)
  ultimately show ?thesis
    unfolding startsWith_def toLowerCase_def by simp
qed

lemma charAt_last: "s \<noteq> [] \<Longrightarrow> charAt s (int (length s) - 1) = [last s]"
  by (cases s rule: rev_cases) (auto simp: charAt_def nth_append)

lemma executeStrategyByName_accept:
  assumes "startsWith (toLowerCase strategyName) ''athan-api-''"
  shows "executeStrategyByName rt strategyName p =
     (p(''method'' \<mapsto> JNumber (parseInt [last strategyName])),
      strategy_getPrayerTimes rt CityPrayerTimeByAthanStrategy
        (p(''method'' \<mapsto> JNumber (parseInt [last strategyName]))))"
proof -
  have "strategyName \<noteq> []" using assms by (auto simp: startsWith_def toLowerCase_def)
  then show ?thesis using assms
    by (simp add: executeStrategyByName_def indexOf_zero_iff charAt_last Let_def)
qed

lemma fetchData_not_resolution_error:
  "snd (fetchData rt url) \<noteq> Inl NoStrategyFound \<and> snd (fetchData rt url) \<noteq> Inl ParametersNotValid
    \<and> snd (fetchData rt url) \<noteq> Inl UnknownStrategy"
  by (simp add: fetchData_def split: option.split)

lemma strategy_not_resolution_error:
  "snd (strategy_getPrayerTimes rt s p) \<noteq> Inl NoStrategyFound \<and>
   snd (strategy_getPrayerTimes rt s p) \<noteq> Inl ParametersNotValid \<and>
   snd (strategy_getPrayerTimes rt s p) \<noteq> Inl UnknownStrategy"
  by (cases s) (simp_all add: getByCity_def getByCoordinates_def fetchData_not_resolution_error)

lemma canHandle_Coordinates_iff:
  "canHandle CoordinatesPrayerTimeByAthanStrategy p \<longleftrightarrow>
     (\<exists>a b m d. p ''lat'' = Some (JNumber a) \<and> p ''lon'' = Some (JNumber b) \<and>
        p ''method'' = Some (JNumber m) \<and> p ''duration'' = Some (JNumber d) \<and> gt_zero d)"
proof -
  have t: "typeof (getProp p k) = ''number'' \<longleftrightarrow> (\<exists>n. p k = Some (JNumber n))" for k
    by (cases "p k"; cases "getProp p k") (auto simp: getProp_def)
  have g: "(case getProp p k of JNumber n \<Rightarrow> gt_zero n | _ \<Rightarrow> False) \<longleftrightarrow>
           (\<exists>d. p k = Some (JNumber d) \<and> gt_zero d)" for k
    by (cases "p k"; cases "getProp p k") (auto simp: getProp_def)
  show ?thesis
    unfolding canHandle.simps t g by blast
qed

lemma canHandle_City: "canHandle CityPrayerTimeByAthanStrategy p"
  by simp

lemma parseInt_digit:
  assumes "c \<in> set ''0123456789''"
  shows "parseInt [c] = Finite (real (the (digitValue c)))"
proof -
  have "list_all (\<lambda>c. parseInt [c] = Finite (real (the (digitValue c)))) ''0123456789''"
    by code_simp
  with assms show ?thesis
    unfolding list_all_iff by blast
qed

lemmas parseInt_defs =
  parseInt_def isWhiteSpace_def isDigitIn_def digitValue_def digitsValue_def

section \<open>Explicit resolution by strategy name\<close>

text \<open>
  Claim C1. For every strategy name that starts with \<open>athan-api-\<close>,
  \<open>executeStrategyByName\<close> runs the By-City strategy on the payload whose \<open>method\<close>
  has been overwritten with \<open>parseInt\<close> of the last character of the whole name. For a
  decimal digit that is the digit's value, so \<open>athan-api-3\<close> sets \<open>method = 3\<close> and
  \<open>athan-api-12\<close> sets \<open>method = 2\<close>, not 12.
\<close>

theorem C1_method_from_last_character:
  "(startsWith strategyName ''athan-api-'' \<longrightarrow>
      executeStrategyByName rt strategyName p =
        (p(''method'' \<mapsto> JNumber (parseInt [last strategyName])),
         strategy_getPrayerTimes rt CityPrayerTimeByAthanStrategy
           (p(''method'' \<mapsto> JNumber (parseInt [last strategyName])))))
   \<and> (c \<in> set ''0123456789'' \<longrightarrow> parseInt [c] = Finite (real (the (digitValue c))))
   \<and> fst (executeStrategyByName rt ''athan-api-3'' p) ''method'' = Some (JNumber (Finite 3))
   \<and> fst (executeStrategyByName rt ''athan-api-12'' p) ''method'' = Some (JNumber (Finite 2))"
proof (intro conjI impI)
  assume "startsWith strategyName ''athan-api-''"
  then show "executeStrategyByName rt strategyName p =
        (p(''method'' \<mapsto> JNumber (parseInt [last strategyName])),
         strategy_getPrayerTimes rt CityPrayerTimeByAthanStrategy
           (p(''method'' \<mapsto> JNumber (parseInt [last strategyName]))))"
    by (rule executeStrategyByName_accept [OF toLowerCase_prefix])
next
  assume "c \<in> set ''0123456789''"
  then show "parseInt [c] = Finite (real (the (digitValue c)))"
    by (rule parseInt_digit)
next
  have "startsWith (toLowerCase ''athan-api-3'') ''athan-api-''"
    by (simp add: startsWith_def toLowerCase_def toLowerChar_def)
  from executeStrategyByName_accept [OF this]
  show "fst (executeStrategyByName rt ''athan-api-3'' p) ''method'' = Some (JNumber (Finite 3))"
    by (simp add: parseInt_defs)
next
  have "startsWith (toLowerCase ''athan-api-12'') ''athan-api-''"
    by (simp add: startsWith_def toLowerCase_def toLowerChar_def)
  from executeStrategyByName_accept [OF this]
  show "fst (executeStrategyByName rt ''athan-api-12'' p) ''method'' = Some (JNumber (Finite 2))"
    by (simp add: parseInt_defs)
qed

theorem C1_method_from_last_character_witness:
  "startsWith ''athan-api-12'' ''athan-api-'' \<and> CHR ''2'' \<in> set ''0123456789'' \<and>
   fst (executeStrategyByName demo_runtime ''athan-api-12'' demo_city_request) ''method'' =
     Some (JNumber (Finite 2)) \<and>
   snd (executeStrategyByName demo_runtime ''athan-api-12'' demo_city_request) =
     ([''http://api.aladhan.com/v1/calendarByCity?city=Rabat&country=Morocco&method=2&month=7&year=2024''],
      Inr (map normalize demo_month))"
proof -
  have h: "startsWith ''athan-api-12'' ''athan-api-''"
    by code_simp
  have d: "CHR ''2'' \<in> set ''0123456789''"
    by simp
  have run: "executeStrategyByName demo_runtime ''athan-api-12'' demo_city_request =
        (demo_city_request(''method'' \<mapsto> JNumber (parseInt [last ''athan-api-12''])),
         strategy_getPrayerTimes demo_runtime CityPrayerTimeByAthanStrategy
           (demo_city_request(''method'' \<mapsto> JNumber (parseInt [last ''athan-api-12'']))))"
    using C1_method_from_last_character
            [of "''athan-api-12''" demo_runtime demo_city_request "CHR ''2''"] h
    by blast
  have field: "(demo_city_request(''method'' \<mapsto> JNumber (parseInt [last ''athan-api-12''])))
                 ''method'' = Some (JNumber (Finite 2))"
    by code_simp
  have fetch: "strategy_getPrayerTimes demo_runtime CityPrayerTimeByAthanStrategy
           (demo_city_request(''method'' \<mapsto> JNumber (parseInt [last ''athan-api-12'']))) =
     ([''http://api.aladhan.com/v1/calendarByCity?city=Rabat&country=Morocco&method=2&month=7&year=2024''],
      Inr (map normalize demo_month))"
    by code_simp
  show ?thesis
    unfolding run fst_conv snd_conv field fetch using h d by blast
qed

section \<open>Implicit resolution\<close>

text \<open>
  Claim C2. In \<open>getPrayerTimes\<close>, a request whose \<open>lat\<close>, \<open>lon\<close> and \<open>method\<close> are
  numbers and whose \<open>duration\<close> is a number greater than 0 is served by the
  By-Coordinates strategy; every other request falls through to the By-City strategy
  and does not fail with \<open>NoStrategyFound\<close>.
\<close>

theorem C2_implicit_resolution:
  "((\<exists>a b m d. p ''lat'' = Some (JNumber a) \<and> p ''lon'' = Some (JNumber b) \<and>
        p ''method'' = Some (JNumber m) \<and> p ''duration'' = Some (JNumber d) \<and> gt_zero d) \<longrightarrow>
      find (\<lambda>s. canHandle s p) strategies = Some CoordinatesPrayerTimeByAthanStrategy \<and>
      getPrayerTimes rt p = strategy_getPrayerTimes rt CoordinatesPrayerTimeByAthanStrategy p)
   \<and> (\<not> (\<exists>a b m d. p ''lat'' = Some (JNumber a) \<and> p ''lon'' = Some (JNumber b) \<and>
        p ''method'' = Some (JNumber m) \<and> p ''duration'' = Some (JNumber d) \<and> gt_zero d) \<longrightarrow>
      find (\<lambda>s. canHandle s p) strategies = Some CityPrayerTimeByAthanStrategy \<and>
      getPrayerTimes rt p = strategy_getPrayerTimes rt CityPrayerTimeByAthanStrategy p \<and>
      snd (getPrayerTimes rt p) \<noteq> Inl NoStrategyFound)"
  unfolding canHandle_Coordinates_iff [symmetric]
  by (simp add: getPrayerTimes_def strategies_def strategy_not_resolution_error
        del: canHandle.simps(2) strategy_getPrayerTimes.simps)

theorem C2_implicit_resolution_witness:
  "getPrayerTimes demo_runtime (demo_coordinates_request 7) =
     ([''http://api.aladhan.com/v1/calendar?latitude=3&longitude=4&method=2&month=7&year=2024''],
      Inr (map normalize demo_month))
   \<and> getPrayerTimes demo_runtime (demo_coordinates_request 0) =
     ([''http://api.aladhan.com/v1/calendarByCity?city=undefined&country=undefined&method=2&month=7&year=2024''],
      Inl UpstreamCallFailed)"
proof -
  have yes: "\<exists>a b m d. demo_coordinates_request 7 ''lat'' = Some (JNumber a) \<and>
        demo_coordinates_request 7 ''lon'' = Some (JNumber b) \<and>
        demo_coordinates_request 7 ''method'' = Some (JNumber m) \<and>
        demo_coordinates_request 7 ''duration'' = Some (JNumber d) \<and> gt_zero d"
    by (simp add: demo_coordinates_request_def)
  have no: "\<not> (\<exists>a b m d. demo_coordinates_request 0 ''lat'' = Some (JNumber a) \<and>
        demo_coordinates_request 0 ''lon'' = Some (JNumber b) \<and>
        demo_coordinates_request 0 ''method'' = Some (JNumber m) \<and>
        demo_coordinates_request 0 ''duration'' = Some (JNumber d) \<and> gt_zero d)"
    by (simp add: demo_coordinates_request_def)
  have by_coordinates: "getPrayerTimes demo_runtime (demo_coordinates_request 7) =
      strategy_getPrayerTimes demo_runtime CoordinatesPrayerTimeByAthanStrategy
        (demo_coordinates_request 7)"
    using C2_implicit_resolution [of "demo_coordinates_request 7" demo_runtime] yes by blast
  have by_city: "getPrayerTimes demo_runtime (demo_coordinates_request 0) =
      strategy_getPrayerTimes demo_runtime CityPrayerTimeByAthanStrategy
        (demo_coordinates_request 0)"
    using C2_implicit_resolution [of "demo_coordinates_request 0" demo_runtime] no by blast
  have fetch1: "strategy_getPrayerTimes demo_runtime CoordinatesPrayerTimeByAthanStrategy
        (demo_coordinates_request 7) =
     ([''http://api.aladhan.com/v1/calendar?latitude=3&longitude=4&method=2&month=7&year=2024''],
      Inr (map normalize demo_month))"
    by code_simp
  have fetch2: "strategy_getPrayerTimes demo_runtime CityPrayerTimeByAthanStrategy
        (demo_coordinates_request 0) =
     ([''http://api.aladhan.com/v1/calendarByCity?city=undefined&country=undefined&method=2&month=7&year=2024''],
      Inl UpstreamCallFailed)"
    by code_simp
  show ?thesis
    unfolding by_coordinates by_city fetch1 fetch2 by blast
qed

text \<open>
  Claim C5, as stated, fails: the name is put in lower case before the prefix is looked
  for, so \<open>ATHAN-API-3\<close>, which does not start with the literal prefix, is accepted and
  the By-City fetch is executed.
\<close>

theorem C5_literal_prefix_counterexample:
  "\<not> startsWith ''ATHAN-API-3'' ''athan-api-'' \<and>
   fst (executeStrategyByName demo_runtime ''ATHAN-API-3'' demo_city_request) ''method'' =
     Some (JNumber (Finite 3)) \<and>
   snd (executeStrategyByName demo_runtime ''ATHAN-API-3'' demo_city_request) =
     ([''http://api.aladhan.com/v1/calendarByCity?city=Rabat&country=Morocco&method=3&month=7&year=2024''],
      Inr (map normalize demo_month))"
  by code_simp

text \<open>
  Claim C5, amended. For every strategy name whose lower-case form does not start with
  \<open>athan-api-\<close> (for example \<open>unknown-x\<close>), \<open>executeStrategyByName\<close> fails with
  \<open>UnknownStrategy\<close>, leaves the payload as it was and requests nothing from upstream.
\<close>

theorem C5_unknown_strategy:
  "\<not> startsWith (toLowerCase strategyName) ''athan-api-'' \<Longrightarrow>
   executeStrategyByName rt strategyName p = (p, [], Inl UnknownStrategy)"
  by (simp add: executeStrategyByName_def indexOf_zero_iff)

theorem C5_unknown_strategy_witness:
  "\<not> startsWith (toLowerCase ''unknown-x'') ''athan-api-'' \<and>
   executeStrategyByName demo_runtime ''unknown-x'' demo_city_request =
     (demo_city_request, [], Inl UnknownStrategy)"
proof -
  have h: "\<not> startsWith (toLowerCase ''unknown-x'') ''athan-api-''"
    by code_simp
  from h C5_unknown_strategy [OF h] show ?thesis by blast
qed

text \<open>
  Claim C6. \<open>getPrayerTimes\<close> never fails with \<open>NoStrategyFound\<close>: the By-City
  strategy is in the list and its \<open>canHandle\<close> is true of every request, so the search
  always finds a strategy.
\<close>

theorem C6_never_NoStrategyFound:
  "snd (getPrayerTimes rt p) \<noteq> Inl NoStrategyFound
   \<and> find (\<lambda>s. canHandle s p) strategies \<noteq> None
   \<and> CityPrayerTimeByAthanStrategy \<in> set strategies
   \<and> canHandle CityPrayerTimeByAthanStrategy p"
  by (simp add: getPrayerTimes_def strategies_def strategy_not_resolution_error
        del: canHandle.simps(2) strategy_getPrayerTimes.simps)

text \<open>
  Claim C7. \<open>executeStrategyByName\<close> checks the selected strategy's \<open>canHandle\<close> again
  and would fail with \<open>ParametersNotValid\<close>; the strategy selected is always By-City,
  whose \<open>canHandle\<close> is true, so that failure occurs for no name and no payload.
\<close>

theorem C7_never_ParametersNotValid:
  "snd (snd (executeStrategyByName rt strategyName p)) \<noteq> Inl ParametersNotValid
   \<and> canHandle CityPrayerTimeByAthanStrategy (fst (executeStrategyByName rt strategyName p))"
  by (simp add: executeStrategyByName_def Let_def strategy_not_resolution_error
        del: canHandle.simps(2) strategy_getPrayerTimes.simps)

text \<open>
  Claim C9. The By-Coordinates fetch does not depend on \<open>duration\<close>: two accepted
  coordinate requests that differ only in \<open>duration\<close> request the same URL and get the
  same result, which is the whole mapped sequence the upstream returned for the current
  month.
\<close>

theorem C9_duration_ignored:
  assumes "canHandle CoordinatesPrayerTimeByAthanStrategy p"
    and "canHandle CoordinatesPrayerTimeByAthanStrategy q"
    and "\<forall>k. k \<noteq> ''duration'' \<longrightarrow> p k = q k"
  shows "strategy_getPrayerTimes rt CoordinatesPrayerTimeByAthanStrategy p =
           strategy_getPrayerTimes rt CoordinatesPrayerTimeByAthanStrategy q
         \<and> getPrayerTimes rt p = getPrayerTimes rt q
         \<and> (\<forall>data. httpService_get rt
                (''http://api.aladhan.com/v1/calendar?latitude='' @ toString rt (getProp p ''lat'')
                 @ ''&longitude='' @ toString rt (getProp p ''lon'')
                 @ ''&method='' @ toString rt (getProp p ''method'')
                 @ month_year rt) = Some data \<longrightarrow>
              snd (getPrayerTimes rt p) = Inr (map normalize data))"
proof -
  have same: "getProp p k = getProp q k" if "k \<noteq> ''duration''" for k
    using assms(3) that by (simp add: getProp_def)
  have strat: "strategy_getPrayerTimes rt CoordinatesPrayerTimeByAthanStrategy p =
           strategy_getPrayerTimes rt CoordinatesPrayerTimeByAthanStrategy q"
    by (simp add: same)
  have sel: "getPrayerTimes rt r = strategy_getPrayerTimes rt CoordinatesPrayerTimeByAthanStrategy r"
    if "canHandle CoordinatesPrayerTimeByAthanStrategy r" for r
    using that
    by (simp add: getPrayerTimes_def strategies_def
          del: canHandle.simps strategy_getPrayerTimes.simps)
  have full: "snd (strategy_getPrayerTimes rt CoordinatesPrayerTimeByAthanStrategy p) =
                Inr (map normalize data)"
    if "httpService_get rt
                (''http://api.aladhan.com/v1/calendar?latitude='' @ toString rt (getProp p ''lat'')
                 @ ''&longitude='' @ toString rt (getProp p ''lon'')
                 @ ''&method='' @ toString rt (getProp p ''method'')
                 @ month_year rt) = Some data" for data
    using that by (simp add: getByCoordinates_def fetchData_def Let_def)
  show ?thesis
    unfolding sel [OF assms(1)] sel [OF assms(2)] using strat full by blast
qed

theorem C9_duration_ignored_witness:
  "canHandle CoordinatesPrayerTimeByAthanStrategy (demo_coordinates_request 1)
   \<and> canHandle CoordinatesPrayerTimeByAthanStrategy (demo_coordinates_request 30)
   \<and> getPrayerTimes demo_runtime (demo_coordinates_request 1) =
       getPrayerTimes demo_runtime (demo_coordinates_request 30)
   \<and> snd (getPrayerTimes demo_runtime (demo_coordinates_request 30)) =
       Inr (map normalize demo_month)"
proof -
  have p: "canHandle CoordinatesPrayerTimeByAthanStrategy (demo_coordinates_request 1)"
    by code_simp
  have q: "canHandle CoordinatesPrayerTimeByAthanStrategy (demo_coordinates_request 30)"
    by code_simp
  have k: "\<forall>k. k \<noteq> ''duration'' \<longrightarrow>
             demo_coordinates_request 1 k = demo_coordinates_request 30 k"
    by (simp add: demo_coordinates_request_def)
  have e: "snd (getPrayerTimes demo_runtime (demo_coordinates_request 1)) =
       Inr (map normalize demo_month)"
    by code_simp
  from C9_duration_ignored [OF p q k, of demo_runtime]
  have "getPrayerTimes demo_runtime (demo_coordinates_request 1) =
       getPrayerTimes demo_runtime (demo_coordinates_request 30)"
    by blast
  with p q e show ?thesis by simp
qed

section \<open>Dates\<close>

lemma js_split_not_Nil: "js_split sep s \<noteq> []"
  by (induction s) (auto split: list.split)

lemma js_split_append_sep:
  "sep \<notin> set a \<Longrightarrow> js_split sep (a @ sep # r) = a # js_split sep r"
  by (induction a) auto

lemma js_split_no_sep: "sep \<notin> set a \<Longrightarrow> js_split sep a = [a]"
  by (induction a) auto

lemma js_split_parts_no_sep: "p \<in> set (js_split sep s) \<Longrightarrow> sep \<notin> set p"
proof (induction s arbitrary: p)
  case Nil
  then show ?case by simp
next
  case (Cons c cs)
  then show ?case
    by (cases "js_split sep cs") (auto split: if_splits)
qed

lemma join_Cons_char:
  "join (Some (c # part) # xs) sep = c # join (Some part # xs) sep"
  by (cases xs) simp_all

lemma join_js_split: "join (map Some (js_split sep s)) [sep] = s"
proof (induction s)
  case Nil
  then show ?case by simp
next
  case (Cons c cs)
  obtain part parts where ps: "js_split sep cs = part # parts"
    using js_split_not_Nil [of sep cs] by (cases "js_split sep cs") auto
  with Cons show ?case
    by (simp add: join_Cons_char)
qed

lemma three_parts:
  assumes "js_split CHR ''-'' s = [a, b, c]"
  shows "s = a @ ''-'' @ b @ ''-'' @ c"
    and "CHR ''-'' \<notin> set a" and "CHR ''-'' \<notin> set b" and "CHR ''-'' \<notin> set c"
proof -
  from join_js_split [of "CHR ''-''" s] assms show "s = a @ ''-'' @ b @ ''-'' @ c"
    by simp
  show "CHR ''-'' \<notin> set a" "CHR ''-'' \<notin> set b" "CHR ''-'' \<notin> set c"
    using js_split_parts_no_sep [of _ "CHR ''-''" s] assms by simp_all
qed

lemma js_split_three:
  assumes "CHR ''-'' \<notin> set a" "CHR ''-'' \<notin> set b" "CHR ''-'' \<notin> set c"
  shows "js_split CHR ''-'' (a @ ''-'' @ b @ ''-'' @ c) = [a, b, c]"
  using assms by (simp add: js_split_append_sep js_split_no_sep)

lemma element_three:
  "element [a, b, c] 0 = Some a" "element [a, b, c] 1 = Some b" "element [a, b, c] 2 = Some c"
  by (simp_all add: element_def)

lemma formatDate_three:
  assumes "CHR ''-'' \<notin> set a" "CHR ''-'' \<notin> set b" "CHR ''-'' \<notin> set c"
  shows "formatDate (a @ ''-'' @ b @ ''-'' @ c) = c @ ''-'' @ b @ ''-'' @ a"
  unfolding formatDate_def js_split_three [OF assms] Let_def element_three by simp

lemma formattedDate_three:
  assumes "CHR ''-'' \<notin> set a" "CHR ''-'' \<notin> set b" "CHR ''-'' \<notin> set c"
  shows "formattedDate (a @ ''-'' @ b @ ''-'' @ c) = c @ ''-'' @ b @ ''-'' @ a"
  unfolding formattedDate_def js_split_three [OF assms] Let_def element_three
  by (simp add: interpolate_def)

text \<open>
  Claim C10. On a date string of exactly three components separated by \<open>-\<close>,
  \<open>formatDate\<close> reverses the order of the components; it is an involution there, and
  the conversion inside \<open>insertData\<close> undoes it, so a date taken through \<open>formatDate\<close>
  and then through that conversion is the original string. (The components need not be
  non-empty for this.)
\<close>

theorem C10_date_round_trip:
  assumes "length (js_split CHR ''-'' s) = 3"
  shows "js_split CHR ''-'' (formatDate s) = rev (js_split CHR ''-'' s)
         \<and> formatDate (formatDate s) = s
         \<and> formattedDate (formatDate s) = s
         \<and> formatDate (formattedDate s) = s"
proof -
  from assms obtain a b c where parts: "js_split CHR ''-'' s = [a, b, c]"
    by (auto simp: length_Suc_conv numeral_3_eq_3)
  note abc = three_parts [OF parts]
  have f: "formatDate s = c @ ''-'' @ b @ ''-'' @ a"
    unfolding abc(1) by (rule formatDate_three [OF abc(2-4)])
  have g: "formattedDate s = c @ ''-'' @ b @ ''-'' @ a"
    unfolding abc(1) by (rule formattedDate_three [OF abc(2-4)])
  have back1: "formatDate (c @ ''-'' @ b @ ''-'' @ a) = s"
    unfolding abc(1) by (rule formatDate_three [OF abc(4) abc(3) abc(2)])
  have back2: "formattedDate (c @ ''-'' @ b @ ''-'' @ a) = s"
    unfolding abc(1) by (rule formattedDate_three [OF abc(4) abc(3) abc(2)])
  have "js_split CHR ''-'' (c @ ''-'' @ b @ ''-'' @ a) = rev (js_split CHR ''-'' s)"
    unfolding parts js_split_three [OF abc(4) abc(3) abc(2)] by simp
  then show ?thesis
    unfolding f g back1 back2 by simp
qed

theorem C10_date_round_trip_witness:
  "length (js_split CHR ''-'' ''2024-07-25'') = 3
   \<and> formatDate ''2024-07-25'' = ''25-07-2024''
   \<and> formatDate (formatDate ''2024-07-25'') = ''2024-07-25''
   \<and> formattedDate (formatDate ''2024-07-25'') = ''2024-07-25''"
proof -
  have h: "length (js_split CHR ''-'' ''2024-07-25'') = 3"
    by code_simp
  have e: "formatDate ''2024-07-25'' = ''25-07-2024''"
    by code_simp
  from C10_date_round_trip [OF h] h e show ?thesis
    by blast
qed

lemma fetch_loop_all:
  assumes "\<forall>m. month \<le> m \<and> m \<le> 12 \<longrightarrow> axios_get rt (gToHCalendar_url rt m y) \<noteq> None"
    and "month \<le> 13"
  shows "fetchMonthlyAnnouncements_loop rt y month results requested =
     (requested @ map (\<lambda>m. gToHCalendar_url rt m y) [month..<13],
      Inr (results @ map (\<lambda>m. (m, element (the (axios_get rt (gToHCalendar_url rt m y))) 0,
                                   element (the (axios_get rt (gToHCalendar_url rt m y)))
                                     (int (length (the (axios_get rt (gToHCalendar_url rt m y)))) - 1)))
                          [month..<13]))"
  using assms
proof (induction rt y month results requested rule: fetchMonthlyAnnouncements_loop.induct)
  case (1 rt GregoYear month results requested)
  show ?case
  proof (cases "month \<le> 12")
    case True
    then obtain days where d: "axios_get rt (gToHCalendar_url rt month GregoYear) = Some days"
      using "1.prems"(1) by auto
    have up: "[month..<13] = month # [Suc month..<13]"
      using True by (simp add: upt_conv_Cons)
    have "fetchMonthlyAnnouncements_loop rt GregoYear month results requested =
          fetchMonthlyAnnouncements_loop rt GregoYear (Suc month)
            (results @ [(month, element days 0, element days (int (length days) - 1))])
            (requested @ [gToHCalendar_url rt month GregoYear])"
      using True d by (subst fetchMonthlyAnnouncements_loop.simps) (simp add: Let_def)
    also have "\<dots> = (requested @ map (\<lambda>m. gToHCalendar_url rt m GregoYear) [month..<13],
      Inr (results @ map (\<lambda>m. (m, element (the (axios_get rt (gToHCalendar_url rt m GregoYear))) 0,
                                   element (the (axios_get rt (gToHCalendar_url rt m GregoYear)))
                                     (int (length (the (axios_get rt (gToHCalendar_url rt m GregoYear)))) - 1)))
                          [month..<13]))"
      using "1.IH" [OF True refl d] "1.prems" True unfolding up by (simp add: d)
    finally show ?thesis .
  next
    case False
    with "1.prems" have "month = 13" by simp
    then show ?thesis
      by (subst fetchMonthlyAnnouncements_loop.simps) simp
  qed
qed

lemma update_loop_all:
  assumes "\<forall>e \<in> set cal. fst (snd e) \<noteq> None \<and> snd (snd e) \<noteq> None"
    and "\<forall>t. \<forall>params \<in> set (map (\<lambda>(m, f, l). [formatDate (gregorian_date (the f)), formatDate (hijri_date (the f)),
                       formatDate (hijri_date (the l))]) cal).
           accepts t params"
  shows "update_loop accepts (Some table) cal answer =
     (Some (insert_all table (map (\<lambda>(m, f, l). [formatDate (gregorian_date (the f)), formatDate (hijri_date (the f)),
                       formatDate (hijri_date (the l))]) cal)),
      Inr (answer @ map (\<lambda>(m, f, l). [formatDate (gregorian_date (the f)), formatDate (hijri_date (the f)),
                       formatDate (hijri_date (the l))]) cal))"
  using assms
proof (induction cal arbitrary: table answer)
  case Nil
  then show ?case by simp
next
  case (Cons e cal)
  obtain m f l where e: "e = (m, Some f, Some l)"
    using Cons.prems(1) by (cases e) auto
  have ok: "accepts table [formatDate (gregorian_date f), formatDate (hijri_date f),
                          formatDate (hijri_date l)]"
    using Cons.prems(2) unfolding e by simp
  have rest1: "\<forall>e \<in> set cal. fst (snd e) \<noteq> None \<and> snd (snd e) \<noteq> None"
    using Cons.prems(1) by simp
  have rest2: "\<forall>t. \<forall>params \<in> set (map (\<lambda>(m, f, l). [formatDate (gregorian_date (the f)), formatDate (hijri_date (the f)),
                       formatDate (hijri_date (the l))]) cal).
           accepts t params"
    using Cons.prems(2) by simp
  show ?case
    unfolding e using Cons.IH [OF rest1 rest2] ok by (simp add: Let_def)
qed

text \<open>With every month's days at hand, the only way the loop can fail is a refused statement.\<close>

lemma update_loop_outcome:
  assumes "\<forall>e \<in> set cal. fst (snd e) \<noteq> None \<and> snd (snd e) \<noteq> None"
  shows "snd (update_loop accepts (Some table) cal answer) =
           Inr (answer @ map (\<lambda>(m, f, l). [formatDate (gregorian_date (the f)), formatDate (hijri_date (the f)),
                       formatDate (hijri_date (the l))]) cal)
       \<or> snd (update_loop accepts (Some table) cal answer) = Inl PersistenceWriteFailed"
  using assms
proof (induction cal arbitrary: table answer)
  case Nil
  then show ?case by simp
next
  case (Cons e cal)
  obtain m f l where e: "e = (m, Some f, Some l)"
    using Cons.prems by (cases e) auto
  have rest: "\<forall>e \<in> set cal. fst (snd e) \<noteq> None \<and> snd (snd e) \<noteq> None"
    using Cons.prems by simp
  show ?case
  proof (cases "accepts table [formatDate (gregorian_date f), formatDate (hijri_date f),
                               formatDate (hijri_date l)]")
    case True
    then show ?thesis
      unfolding e
      using Cons.IH [OF rest, of "insert_hijri_calendar table (formatDate (gregorian_date f))
                                    (formatDate (hijri_date f)) (formatDate (hijri_date l))"
                       "answer @ [[formatDate (gregorian_date f), formatDate (hijri_date f),
                                   formatDate (hijri_date l)]]"]
      by (simp add: Let_def)
  next
    case False
    then show ?thesis
      unfolding e by (simp add: Let_def)
  qed
qed

lemma element_first_last:
  assumes "xs \<noteq> []"
  shows "element xs 0 = Some (hd xs)" and "element xs (int (length xs) - 1) = Some (last xs)"
proof -
  show "element xs 0 = Some (hd xs)"
    using assms by (simp add: element_def hd_conv_nth)
  have "nat (int (length xs) - 1) = length xs - 1"
    by simp
  then show "element xs (int (length xs) - 1) = Some (last xs)"
    using assms by (simp add: element_def last_conv_nth)
qed

lemma fetchMonthlyAnnouncements_all:
  assumes "\<forall>month \<in> {1..12}. \<exists>first rest.
             axios_get rt (gToHCalendar_url rt month year) = Some (first # rest)"
  shows "fetchMonthlyAnnouncements rt year =
     (map (\<lambda>month. gToHCalendar_url rt month year) [1..<13],
      Inr (map (\<lambda>month. (month, Some (hd (the (axios_get rt (gToHCalendar_url rt month year)))),
                                  Some (last (the (axios_get rt (gToHCalendar_url rt month year))))))
             [1..<13]))"
proof -
  have some: "\<forall>m. 1 \<le> m \<and> m \<le> 12 \<longrightarrow> axios_get rt (gToHCalendar_url rt m year) \<noteq> None"
    using assms by fastforce
  have ne: "the (axios_get rt (gToHCalendar_url rt m year)) \<noteq> []" if "m \<in> set [1..<13]" for m
  proof -
    from that have "m \<in> {1..12}" by auto
    with assms obtain first rest
      where "axios_get rt (gToHCalendar_url rt m year) = Some (first # rest)" by blast
    then show ?thesis by simp
  qed
  have "map (\<lambda>m. (m, element (the (axios_get rt (gToHCalendar_url rt m year))) 0,
                     element (the (axios_get rt (gToHCalendar_url rt m year)))
                       (int (length (the (axios_get rt (gToHCalendar_url rt m year)))) - 1)))
          [1..<13] =
        map (\<lambda>month. (month, Some (hd (the (axios_get rt (gToHCalendar_url rt month year)))),
                              Some (last (the (axios_get rt (gToHCalendar_url rt month year))))))
          [1..<13]"
    by (rule map_cong [OF refl]) (simp add: element_first_last [OF ne])
  then show ?thesis
    unfolding fetchMonthlyAnnouncements_def
    using fetch_loop_all [OF some, of "[]" "[]"] by simp
qed

section \<open>The calendar synchronizer\<close>

text \<open>
  Claim C4. For every Gregorian year whose twelve upstream queries each return a
  non-empty day sequence, the synchronizer requests the months \<open>1 .. 12\<close> in that order
  and, when the database accepts the statements, returns, in the same order, one triple
  per month: the first day's Gregorian date, the first day's Hijri date and the last
  day's Hijri date, each passed through \<open>formatDate\<close>, which turns year-month-day into
  day-month-year. The returned list is the same whatever the table held, that is,
  whichever rows were written or skipped; the only other outcome is the failure of a
  refused statement.
\<close>

theorem C4_sync_returns_boundaries:
  assumes "\<forall>month \<in> {1..12}. \<exists>first rest.
             axios_get rt (gToHCalendar_url rt month year) = Some (first # rest)"
  shows "fst (updateOfficialHijriCalendar accepts rt (Some table) year) =
           map (\<lambda>month. gToHCalendar_url rt month year) [1..<13]
       \<and> ((\<forall>t. \<forall>params \<in> set (boundaries rt year). accepts t params) \<longrightarrow>
            snd (snd (updateOfficialHijriCalendar accepts rt (Some table) year)) =
              Inr (Some (boundaries rt year)))
       \<and> (snd (snd (updateOfficialHijriCalendar accepts rt (Some table) year)) =
              Inr (Some (boundaries rt year))
          \<or> snd (snd (updateOfficialHijriCalendar accepts rt (Some table) year)) =
              Inl PersistenceWriteFailed)
       \<and> length (boundaries rt year) = 12
       \<and> (CHR ''-'' \<notin> set y \<and> CHR ''-'' \<notin> set m \<and> CHR ''-'' \<notin> set d \<longrightarrow>
            formatDate (y @ ''-'' @ m @ ''-'' @ d) = d @ ''-'' @ m @ ''-'' @ y)"
proof -
  let ?cal = "map (\<lambda>month. (month, Some (hd (the (axios_get rt (gToHCalendar_url rt month year)))),
                                  Some (last (the (axios_get rt (gToHCalendar_url rt month year))))))
             [1..<13]"
  let ?urls = "map (\<lambda>month. gToHCalendar_url rt month year) [1..<13]"
  have fetched: "fetchMonthlyAnnouncements rt year = (?urls, Inr ?cal)"
    by (rule fetchMonthlyAnnouncements_all [OF assms])
  have len: "length ?cal \<noteq> 0"
    by simp
  have days: "\<forall>e \<in> set ?cal. fst (snd e) \<noteq> None \<and> snd (snd e) \<noteq> None"
    by auto
  have triples: "map (\<lambda>(m, f, l). [formatDate (gregorian_date (the f)), formatDate (hijri_date (the f)),
                       formatDate (hijri_date (the l))]) ?cal = boundaries rt year"
    by (simp add: boundaries_def boundary_def comp_def)
  have run: "updateOfficialHijriCalendar accepts rt (Some table) year =
          (?urls, fst (update_loop accepts (Some table) ?cal []),
           case snd (update_loop accepts (Some table) ?cal []) of Inl e \<Rightarrow> Inl e
           | Inr answer \<Rightarrow> Inr (Some answer))"
    unfolding updateOfficialHijriCalendar_def fetched using len
    by (cases "update_loop accepts (Some table) ?cal []";
        cases "snd (update_loop accepts (Some table) ?cal [])")
       (simp_all del: length_map map_eq_conv)
  have requested: "fst (updateOfficialHijriCalendar accepts rt (Some table) year) = ?urls"
    unfolding run by simp
  have accepted: "snd (snd (updateOfficialHijriCalendar accepts rt (Some table) year)) =
              Inr (Some (boundaries rt year))"
    if "\<forall>t. \<forall>params \<in> set (boundaries rt year). accepts t params"
  proof -
    from that have "\<forall>t. \<forall>params \<in> set (map (\<lambda>(m, f, l). [formatDate (gregorian_date (the f)), formatDate (hijri_date (the f)),
                       formatDate (hijri_date (the l))]) ?cal). accepts t params"
      unfolding triples .
    from update_loop_all [OF days this, of table "[]"]
    have "snd (update_loop accepts (Some table) ?cal []) = Inr (boundaries rt year)"
      unfolding triples by simp
    then show ?thesis
      unfolding run by simp
  qed
  have either: "snd (snd (updateOfficialHijriCalendar accepts rt (Some table) year)) =
              Inr (Some (boundaries rt year))
          \<or> snd (snd (updateOfficialHijriCalendar accepts rt (Some table) year)) =
              Inl PersistenceWriteFailed"
  proof -
    from update_loop_outcome [OF days, of accepts table "[]"]
    have "snd (update_loop accepts (Some table) ?cal []) = Inr (boundaries rt year)
        \<or> snd (update_loop accepts (Some table) ?cal []) = Inl PersistenceWriteFailed"
      unfolding triples by simp
    then show ?thesis
      unfolding run by auto
  qed
  have twelve: "length (boundaries rt year) = 12"
    by (simp add: boundaries_def)
  have reversed: "formatDate (y @ ''-'' @ m @ ''-'' @ d) = d @ ''-'' @ m @ ''-'' @ y"
    if "CHR ''-'' \<notin> set y \<and> CHR ''-'' \<notin> set m \<and> CHR ''-'' \<notin> set d"
    using that formatDate_three [of y m d] by blast
  from requested accepted either twelve reversed show ?thesis
    by blast
qed

theorem C4_sync_returns_boundaries_witness:
  "fst (updateOfficialHijriCalendar demo_accepts_all demo_runtime (Some Map.empty)
          (JNumber (Finite 2024))) =
         [''https://api.aladhan.com/v1/gToHCalendar/1/2024'',
          ''https://api.aladhan.com/v1/gToHCalendar/2/2024'',
          ''https://api.aladhan.com/v1/gToHCalendar/3/2024'',
          ''https://api.aladhan.com/v1/gToHCalendar/4/2024'',
          ''https://api.aladhan.com/v1/gToHCalendar/5/2024'',
          ''https://api.aladhan.com/v1/gToHCalendar/6/2024'',
          ''https://api.aladhan.com/v1/gToHCalendar/7/2024'',
          ''https://api.aladhan.com/v1/gToHCalendar/8/2024'',
          ''https://api.aladhan.com/v1/gToHCalendar/9/2024'',
          ''https://api.aladhan.com/v1/gToHCalendar/10/2024'',
          ''https://api.aladhan.com/v1/gToHCalendar/11/2024'',
          ''https://api.aladhan.com/v1/gToHCalendar/12/2024'']
   \<and> snd (snd (updateOfficialHijriCalendar demo_accepts_all demo_runtime (Some Map.empty)
                 (JNumber (Finite 2024)))) =
         Inr (Some
           [[''01-01-2024'', ''19-01-1445'', ''17-01-1445''],
            [''01-02-2024'', ''19-02-1445'', ''17-02-1445''],
            [''01-03-2024'', ''19-03-1445'', ''17-03-1445''],
            [''01-04-2024'', ''19-04-1445'', ''17-04-1445''],
            [''01-05-2024'', ''19-05-1445'', ''17-05-1445''],
            [''01-06-2024'', ''19-06-1445'', ''17-06-1445''],
            [''01-07-2024'', ''19-07-1445'', ''17-07-1445''],
            [''01-08-2024'', ''19-08-1445'', ''17-08-1445''],
            [''01-09-2024'', ''19-09-1445'', ''17-09-1445''],
            [''01-10-2024'', ''19-10-1445'', ''17-10-1445''],
            [''01-11-2024'', ''19-11-1445'', ''17-11-1445''],
            [''01-12-2024'', ''19-12-1445'', ''17-12-1445'']])
   \<and> snd (snd (updateOfficialHijriCalendar demo_refuses_march demo_runtime (Some Map.empty)
                 (JNumber (Finite 2024)))) =
         Inl PersistenceWriteFailed"
proof -
  have every: "list_all (\<lambda>month.
          case axios_get demo_runtime (gToHCalendar_url demo_runtime month (JNumber (Finite 2024))) of
            Some (first # rest) \<Rightarrow> True
          | _ \<Rightarrow> False) [1..<13]"
    by code_simp
  have h: "\<forall>month \<in> {1..12}. \<exists>first rest.
      axios_get demo_runtime (gToHCalendar_url demo_runtime month (JNumber (Finite 2024))) =
        Some (first # rest)"
  proof
    fix month :: nat
    assume "month \<in> {1..12}"
    then have "month \<in> set [1..<13]"
      by auto
    with every
    have "case axios_get demo_runtime (gToHCalendar_url demo_runtime month (JNumber (Finite 2024))) of
            Some (first # rest) \<Rightarrow> True
          | _ \<Rightarrow> False"
      unfolding list_all_iff by blast
    then show "\<exists>first rest.
      axios_get demo_runtime (gToHCalendar_url demo_runtime month (JNumber (Finite 2024))) =
        Some (first # rest)"
      by (auto split: option.splits list.splits)
  qed
  have acc: "\<forall>t. \<forall>params \<in> set (boundaries demo_runtime (JNumber (Finite 2024))).
               demo_accepts_all t params"
    by (simp add: demo_accepts_all_def)
  have urls: "map (\<lambda>month. gToHCalendar_url demo_runtime month (JNumber (Finite 2024))) [1..<13] =
         [''https://api.aladhan.com/v1/gToHCalendar/1/2024'',
          ''https://api.aladhan.com/v1/gToHCalendar/2/2024'',
          ''https://api.aladhan.com/v1/gToHCalendar/3/2024'',
          ''https://api.aladhan.com/v1/gToHCalendar/4/2024'',
          ''https://api.aladhan.com/v1/gToHCalendar/5/2024'',
          ''https://api.aladhan.com/v1/gToHCalendar/6/2024'',
          ''https://api.aladhan.com/v1/gToHCalendar/7/2024'',
          ''https://api.aladhan.com/v1/gToHCalendar/8/2024'',
          ''https://api.aladhan.com/v1/gToHCalendar/9/2024'',
          ''https://api.aladhan.com/v1/gToHCalendar/10/2024'',
          ''https://api.aladhan.com/v1/gToHCalendar/11/2024'',
          ''https://api.aladhan.com/v1/gToHCalendar/12/2024'']"
    by code_simp
  have triples: "boundaries demo_runtime (JNumber (Finite 2024)) =
           [[''01-01-2024'', ''19-01-1445'', ''17-01-1445''],
            [''01-02-2024'', ''19-02-1445'', ''17-02-1445''],
            [''01-03-2024'', ''19-03-1445'', ''17-03-1445''],
            [''01-04-2024'', ''19-04-1445'', ''17-04-1445''],
            [''01-05-2024'', ''19-05-1445'', ''17-05-1445''],
            [''01-06-2024'', ''19-06-1445'', ''17-06-1445''],
            [''01-07-2024'', ''19-07-1445'', ''17-07-1445''],
            [''01-08-2024'', ''19-08-1445'', ''17-08-1445''],
            [''01-09-2024'', ''19-09-1445'', ''17-09-1445''],
            [''01-10-2024'', ''19-10-1445'', ''17-10-1445''],
            [''01-11-2024'', ''19-11-1445'', ''17-11-1445''],
            [''01-12-2024'', ''19-12-1445'', ''17-12-1445'']]"
    by code_simp
  have refused: "snd (snd (updateOfficialHijriCalendar demo_refuses_march demo_runtime
                             (Some Map.empty) (JNumber (Finite 2024)))) =
         Inl PersistenceWriteFailed"
    by code_simp
  note c4 = C4_sync_returns_boundaries [OF h, of demo_accepts_all Map.empty]
  note requested = c4 [THEN conjunct1, unfolded urls]
  note returned = c4 [THEN conjunct2, THEN conjunct1, THEN mp, OF acc, unfolded triples]
  show ?thesis
    by (intro conjI) (rule requested returned refused)+
qed

subsection \<open>The upsert\<close>

lemma insert_hijri_calendar_present:
  "table month \<noteq> None \<Longrightarrow> insert_hijri_calendar table month first_day last_day = table"
  by (auto simp: insert_hijri_calendar_def fun_eq_iff)

lemma insert_hijri_calendar_keeps:
  "table k = Some row \<Longrightarrow> insert_hijri_calendar table month first_day last_day k = Some row"
  by (auto simp: insert_hijri_calendar_def split: option.split)

lemma dom_insert_hijri_calendar:
  "dom (insert_hijri_calendar table month first_day last_day) = insert month (dom table)"
  by (auto simp: insert_hijri_calendar_def split: option.splits if_splits)

lemma insert_all_keeps:
  "table k = Some row \<Longrightarrow> insert_all table statements k = Some row"
  by (induction statements arbitrary: table) (simp_all add: insert_hijri_calendar_keeps)

lemma dom_insert_all:
  "dom (insert_all table statements) = dom table \<union> (\<lambda>params. params ! 0) ` set statements"
  by (induction statements arbitrary: table) (auto simp: dom_insert_hijri_calendar)

lemma insert_all_present:
  "(\<lambda>params. params ! 0) ` set statements \<subseteq> dom table \<Longrightarrow> insert_all table statements = table"
  by (induction statements arbitrary: table) (auto simp: insert_hijri_calendar_present)

lemma insert_all_append:
  "insert_all table (xs @ ys) = insert_all (insert_all table xs) ys"
  by (induction xs arbitrary: table) simp_all

text \<open>Whatever the outcome of the loop, the pool holds the table after the statements executed.\<close>

lemma update_loop_step:
  "update_loop accepts (Some t) ((m, Some fd, Some ld) # cal) answer =
     (if accepts t [formatDate (gregorian_date fd), formatDate (hijri_date fd),
                    formatDate (hijri_date ld)]
      then update_loop accepts
             (Some (insert_all t [[formatDate (gregorian_date fd), formatDate (hijri_date fd),
                                   formatDate (hijri_date ld)]]))
             cal
             (answer @ [[formatDate (gregorian_date fd), formatDate (hijri_date fd),
                         formatDate (hijri_date ld)]])
      else (Some t, Inl PersistenceWriteFailed))"
  by (simp add: Let_def)

lemma update_loop_no_day:
  "f = None \<or> l = None \<Longrightarrow> update_loop accepts (Some t) ((m, f, l) # cal) answer = (Some t, Inl TypeError)"
  by (auto split: option.split)

lemma update_loop_pool:
  "\<exists>statements. fst (update_loop accepts (Some table) cal answer) = Some (insert_all table statements)
     \<and> (\<forall>answer'. snd (update_loop accepts (Some table) cal answer) = Inr answer' \<longrightarrow>
            answer' = answer @ statements)"
proof (induction cal arbitrary: table answer)
  case Nil
  have "fst (update_loop accepts (Some table) [] answer) = Some (insert_all table [])
     \<and> (\<forall>answer'. snd (update_loop accepts (Some table) [] answer) = Inr answer' \<longrightarrow>
            answer' = answer @ [])"
    by simp
  then show ?case by blast
next
  case (Cons e cal)
  obtain m f l where e: "e = (m, f, l)"
    by (cases e) auto
  let ?stopped = "\<lambda>err. update_loop accepts (Some table) (e # cal) answer = (Some table, Inl err)"
  have stop: ?case if "?stopped err" for err
  proof -
    from that have "fst (update_loop accepts (Some table) (e # cal) answer) =
                      Some (insert_all table [])
     \<and> (\<forall>answer'. snd (update_loop accepts (Some table) (e # cal) answer) = Inr answer' \<longrightarrow>
            answer' = answer @ [])"
      by simp
    then show ?thesis by blast
  qed
  show ?case
  proof (cases "f = None \<or> l = None")
    case True
    then have "?stopped TypeError"
      unfolding e by (rule update_loop_no_day)
    then show ?thesis by (rule stop)
  next
    case False
    then obtain fd ld where fl: "f = Some fd" "l = Some ld"
      by auto
    let ?params = "[formatDate (gregorian_date fd), formatDate (hijri_date fd),
                    formatDate (hijri_date ld)]"
    show ?thesis
    proof (cases "accepts table ?params")
      case False
      then have "?stopped PersistenceWriteFailed"
        unfolding e fl update_loop_step by simp
      then show ?thesis by (rule stop)
    next
      case True
      then have step: "update_loop accepts (Some table) (e # cal) answer =
          update_loop accepts (Some (insert_all table [?params])) cal (answer @ [?params])"
        unfolding e fl update_loop_step by simp
      from Cons.IH [of "insert_all table [?params]" "answer @ [?params]"]
      obtain statements where
        s: "fst (update_loop accepts (Some (insert_all table [?params])) cal (answer @ [?params])) =
              Some (insert_all (insert_all table [?params]) statements)"
           "\<forall>answer'. snd (update_loop accepts (Some (insert_all table [?params])) cal
                               (answer @ [?params])) =
               Inr answer' \<longrightarrow> answer' = (answer @ [?params]) @ statements"
        by blast
      have "fst (update_loop accepts (Some table) (e # cal) answer) =
              Some (insert_all table (?params # statements))
       \<and> (\<forall>answer'. snd (update_loop accepts (Some table) (e # cal) answer) = Inr answer' \<longrightarrow>
              answer' = answer @ (?params # statements))"
        unfolding step using s by simp
      then show ?thesis by blast
    qed
  qed
qed

text \<open>
  Run again on the table the first run left, the loop writes nothing: a statement the
  first run executed finds its key, and the statement the first run was refused at is
  refused again in the same state of the table.
\<close>

lemma update_loop_again_table:
  assumes "fst (update_loop accepts (Some table) cal answer) = Some table'"
  shows "fst (update_loop accepts (Some table') cal answer2) = Some table'"
  using assms
proof (induction cal arbitrary: table answer answer2)
  case Nil
  then show ?case by simp
next
  case (Cons e cal)
  obtain m f l where e: "e = (m, f, l)"
    by (cases e) auto
  show ?case
  proof (cases "f = None \<or> l = None")
    case True
    show ?thesis
      unfolding e update_loop_no_day [OF True] by simp
  next
    case False
    then obtain fd ld where fl: "f = Some fd" "l = Some ld"
      by auto
    let ?params = "[formatDate (gregorian_date fd), formatDate (hijri_date fd),
                    formatDate (hijri_date ld)]"
    show ?thesis
    proof (cases "accepts table ?params")
      case False
      with Cons.prems have "table' = table"
        unfolding e fl update_loop_step by simp
      with False show ?thesis
        unfolding e fl update_loop_step by simp
    next
      case True
      with Cons.prems
      have rest: "fst (update_loop accepts (Some (insert_all table [?params])) cal
                         (answer @ [?params])) = Some table'"
        unfolding e fl update_loop_step by simp
      from update_loop_pool [of accepts "insert_all table [?params]" cal "answer @ [?params]"] rest
      obtain statements where "table' = insert_all (insert_all table [?params]) statements"
        by auto
      then have "formatDate (gregorian_date fd) \<in> dom table'"
        by (simp add: dom_insert_all dom_insert_hijri_calendar)
      then have "table' (formatDate (gregorian_date fd)) \<noteq> None"
        by auto
      then have same: "insert_all table' [?params] = table'"
        by (simp add: insert_hijri_calendar_present)
      show ?thesis
      proof (cases "accepts table' ?params")
        case False
        then show ?thesis
          unfolding e fl update_loop_step by simp
      next
        case True
        then show ?thesis
          unfolding e fl update_loop_step same using Cons.IH [OF rest] by simp
      qed
    qed
  qed
qed

text \<open>When the database's verdict on a statement does not depend on the table, the second
  run also ends as the first did.\<close>

lemma update_loop_again:
  assumes "\<forall>t u params. accepts t params = accepts u params"
    and "fst (update_loop accepts (Some table) cal answer) = Some table'"
  shows "update_loop accepts (Some table') cal answer =
           (Some table', snd (update_loop accepts (Some table) cal answer))"
  using assms(2)
proof (induction cal arbitrary: table answer)
  case Nil
  then show ?case by simp
next
  case (Cons e cal)
  obtain m f l where e: "e = (m, f, l)"
    by (cases e) auto
  show ?case
  proof (cases "f = None \<or> l = None")
    case True
    show ?thesis
      unfolding e update_loop_no_day [OF True] by simp
  next
    case False
    then obtain fd ld where fl: "f = Some fd" "l = Some ld"
      by auto
    let ?params = "[formatDate (gregorian_date fd), formatDate (hijri_date fd),
                    formatDate (hijri_date ld)]"
    have indep: "accepts table' ?params = accepts table ?params"
      using assms(1) by blast
    show ?thesis
    proof (cases "accepts table ?params")
      case False
      then show ?thesis
        unfolding e fl update_loop_step indep by simp
    next
      case True
      with Cons.prems
      have rest: "fst (update_loop accepts (Some (insert_all table [?params])) cal
                         (answer @ [?params])) = Some table'"
        unfolding e fl update_loop_step by simp
      from update_loop_pool [of accepts "insert_all table [?params]" cal "answer @ [?params]"] rest
      obtain statements where "table' = insert_all (insert_all table [?params]) statements"
        by auto
      then have "formatDate (gregorian_date fd) \<in> dom table'"
        by (simp add: dom_insert_all dom_insert_hijri_calendar)
      then have "table' (formatDate (gregorian_date fd)) \<noteq> None"
        by auto
      then have same: "insert_all table' [?params] = table'"
        by (simp add: insert_hijri_calendar_present)
      from True show ?thesis
        unfolding e fl update_loop_step indep same using Cons.IH [OF rest] by simp
    qed
  qed
qed

text \<open>
  Claim C3, as stated, fails in its first part: the value bound to the key column
  \<open>month\<close> is the reformatted first Gregorian date of the month, not the month index.
  After the year 2024 is synchronized into an empty table, January's row is stored under
  \<open>01-01-2024\<close> and nothing is stored under \<open>1\<close>; and synchronizing 2025 next, with all
  twelve months present, stores January 2025 as a further row.
\<close>

theorem C3_key_is_not_month_index_counterexample:
  "the (fst (snd (updateOfficialHijriCalendar demo_accepts_all demo_runtime (Some Map.empty)
                    (JNumber (Finite 2024)))))
     ''01-01-2024'' = Some (''19-01-1445'', ''17-01-1445'')
   \<and> toString demo_runtime (JNumber (Finite 1)) = ''1''
   \<and> the (fst (snd (updateOfficialHijriCalendar demo_accepts_all demo_runtime (Some Map.empty)
                      (JNumber (Finite 2024)))))
       ''1'' = None
   \<and> the (fst (snd (updateOfficialHijriCalendar demo_accepts_all demo_runtime
         (fst (snd (updateOfficialHijriCalendar demo_accepts_all demo_runtime (Some Map.empty)
                      (JNumber (Finite 2024)))))
         (JNumber (Finite 2025)))))
       ''01-01-2025'' = Some (''19-01-1446'', ''17-01-1446'')"
  by code_simp

text \<open>
  Claim C3, amended. The upsert of a month's boundary is keyed by the value bound to the
  column \<open>month\<close>, which is the first element of the month's triple (the reformatted
  first Gregorian date). A statement whose key is present leaves the stored first-day and
  last-day values as they are: a synchronization never changes a row the table already
  had, the keys after it are the old keys and the keys of the returned triples, a table
  that had all of these keys is left identical, and synchronizing a second time requests
  the same and leaves the stored rows exactly as the first time did; it also returns
  what the first time did when the database's verdict on a statement does not depend on
  the table, as with a database that accepts every statement.
\<close>

theorem C3_insert_if_absent:
  "\<exists>table'. fst (snd (updateOfficialHijriCalendar accepts rt (Some table) year)) = Some table'
     \<and> (\<forall>month row. table month = Some row \<longrightarrow> table' month = Some row)
     \<and> (\<forall>answer. snd (snd (updateOfficialHijriCalendar accepts rt (Some table) year)) =
                    Inr (Some answer) \<longrightarrow>
           table' = insert_all table answer
           \<and> dom table' = dom table \<union> (\<lambda>params. params ! 0) ` set answer
           \<and> ((\<lambda>params. params ! 0) ` set answer \<subseteq> dom table \<longrightarrow> table' = table))
     \<and> fst (updateOfficialHijriCalendar accepts rt (Some table') year) =
         fst (updateOfficialHijriCalendar accepts rt (Some table) year)
     \<and> fst (snd (updateOfficialHijriCalendar accepts rt (Some table') year)) = Some table'
     \<and> ((\<forall>t u params. accepts t params = accepts u params) \<longrightarrow>
          updateOfficialHijriCalendar accepts rt (Some table') year =
            updateOfficialHijriCalendar accepts rt (Some table) year)"
proof (cases "fetchMonthlyAnnouncements rt year")
  case (Pair requested fetched)
  show ?thesis
  proof (cases "\<exists>calendar. fetched = Inr calendar \<and> calendar \<noteq> []")
    case False
    then have "updateOfficialHijriCalendar accepts rt (Some t) year =
                 (requested, Some t, case fetched of Inl e \<Rightarrow> Inl e | Inr c \<Rightarrow> Inr None)" for t
      unfolding updateOfficialHijriCalendar_def Pair by (cases fetched) auto
    then show ?thesis
      by (cases fetched) auto
  next
    case True
    then obtain calendar where c: "fetched = Inr calendar" "calendar \<noteq> []"
      by blast
    from update_loop_pool [of accepts table calendar "[]"] obtain statements where
      s: "fst (update_loop accepts (Some table) calendar []) = Some (insert_all table statements)"
         "\<forall>answer'. snd (update_loop accepts (Some table) calendar []) = Inr answer' \<longrightarrow>
             answer' = statements"
      by auto
    let ?table' = "insert_all table statements"
    have run: "updateOfficialHijriCalendar accepts rt (Some t) year =
          (requested, fst (update_loop accepts (Some t) calendar []),
           case snd (update_loop accepts (Some t) calendar []) of Inl e \<Rightarrow> Inl e
           | Inr answer \<Rightarrow> Inr (Some answer))" for t
      unfolding updateOfficialHijriCalendar_def Pair c using c(2)
      by (cases "update_loop accepts (Some t) calendar []";
          cases "snd (update_loop accepts (Some t) calendar [])")
         auto
    have 1: "fst (snd (updateOfficialHijriCalendar accepts rt (Some table) year)) = Some ?table'"
      unfolding run using s(1) by simp
    have 2: "\<forall>month row. table month = Some row \<longrightarrow> ?table' month = Some row"
      by (simp add: insert_all_keeps)
    have 3: "\<forall>answer. snd (snd (updateOfficialHijriCalendar accepts rt (Some table) year)) =
                    Inr (Some answer) \<longrightarrow>
           ?table' = insert_all table answer
           \<and> dom ?table' = dom table \<union> (\<lambda>params. params ! 0) ` set answer
           \<and> ((\<lambda>params. params ! 0) ` set answer \<subseteq> dom table \<longrightarrow> ?table' = table)"
    proof (intro allI impI)
      fix answer
      assume "snd (snd (updateOfficialHijriCalendar accepts rt (Some table) year)) =
                Inr (Some answer)"
      then have "snd (update_loop accepts (Some table) calendar []) = Inr answer"
        unfolding run by (auto split: sum.splits)
      with s(2) have "answer = statements"
        by blast
      then show "?table' = insert_all table answer
           \<and> dom ?table' = dom table \<union> (\<lambda>params. params ! 0) ` set answer
           \<and> ((\<lambda>params. params ! 0) ` set answer \<subseteq> dom table \<longrightarrow> ?table' = table)"
        by (simp add: dom_insert_all insert_all_present)
    qed
    have 4: "fst (updateOfficialHijriCalendar accepts rt (Some ?table') year) =
         fst (updateOfficialHijriCalendar accepts rt (Some table) year)"
      unfolding run by simp
    have 5: "fst (snd (updateOfficialHijriCalendar accepts rt (Some ?table') year)) = Some ?table'"
      unfolding run using update_loop_again_table [OF s(1), of "[]"] by simp
    have 6: "(\<forall>t u params. accepts t params = accepts u params) \<longrightarrow>
          updateOfficialHijriCalendar accepts rt (Some ?table') year =
            updateOfficialHijriCalendar accepts rt (Some table) year"
    proof
      assume "\<forall>t u params. accepts t params = accepts u params"
      from update_loop_again [OF this s(1)] show
        "updateOfficialHijriCalendar accepts rt (Some ?table') year =
            updateOfficialHijriCalendar accepts rt (Some table) year"
        unfolding run using s(1) by simp
    qed
    from 1 2 3 4 5 6 show ?thesis
      by blast
  qed
qed

theorem C3_insert_if_absent_witness:
  "demo_table ''01-01-2024'' = Some (''20-06-1445'', ''19-07-1445'')
   \<and> (\<exists>table'.
         fst (snd (updateOfficialHijriCalendar demo_accepts_all demo_runtime (Some demo_table)
                     (JNumber (Finite 2024)))) =
           Some table'
       \<and> table' ''01-01-2024'' = Some (''20-06-1445'', ''19-07-1445'')
       \<and> table' ''01-02-2024'' = Some (''19-02-1445'', ''17-02-1445'')
       \<and> updateOfficialHijriCalendar demo_accepts_all demo_runtime (Some table')
           (JNumber (Finite 2024)) =
           updateOfficialHijriCalendar demo_accepts_all demo_runtime (Some demo_table)
           (JNumber (Finite 2024)))"
proof -
  have old: "demo_table ''01-01-2024'' = Some (''20-06-1445'', ''19-07-1445'')"
    by (simp add: demo_table_def)
  have new: "the (fst (snd (updateOfficialHijriCalendar demo_accepts_all demo_runtime
                              (Some demo_table) (JNumber (Finite 2024))))) ''01-02-2024'' =
               Some (''19-02-1445'', ''17-02-1445'')"
    by code_simp
  have indep: "\<forall>t u params. demo_accepts_all t params = demo_accepts_all u params"
    by (simp add: demo_accepts_all_def)
  from C3_insert_if_absent [of demo_accepts_all demo_runtime demo_table "JNumber (Finite 2024)"]
  obtain table' where
    t: "fst (snd (updateOfficialHijriCalendar demo_accepts_all demo_runtime (Some demo_table)
                    (JNumber (Finite 2024)))) =
          Some table'
     \<and> (\<forall>month row. demo_table month = Some row \<longrightarrow> table' month = Some row)
     \<and> (\<forall>answer. snd (snd (updateOfficialHijriCalendar demo_accepts_all demo_runtime
                               (Some demo_table) (JNumber (Finite 2024)))) =
                    Inr (Some answer) \<longrightarrow>
           table' = insert_all demo_table answer
           \<and> dom table' = dom demo_table \<union> (\<lambda>params. params ! 0) ` set answer
           \<and> ((\<lambda>params. params ! 0) ` set answer \<subseteq> dom demo_table \<longrightarrow> table' = demo_table))
     \<and> fst (updateOfficialHijriCalendar demo_accepts_all demo_runtime (Some table')
              (JNumber (Finite 2024))) =
         fst (updateOfficialHijriCalendar demo_accepts_all demo_runtime (Some demo_table)
              (JNumber (Finite 2024)))
     \<and> fst (snd (updateOfficialHijriCalendar demo_accepts_all demo_runtime (Some table')
                   (JNumber (Finite 2024)))) = Some table'
     \<and> ((\<forall>t u params. demo_accepts_all t params = demo_accepts_all u params) \<longrightarrow>
          updateOfficialHijriCalendar demo_accepts_all demo_runtime (Some table')
            (JNumber (Finite 2024)) =
            updateOfficialHijriCalendar demo_accepts_all demo_runtime (Some demo_table)
            (JNumber (Finite 2024)))"
    ..
  note stored = t [THEN conjunct1]
  note keeps = t [THEN conjunct2, THEN conjunct1, rule_format]
  note again = t [THEN conjunct2, THEN conjunct2, THEN conjunct2, THEN conjunct2, THEN conjunct2,
                  THEN mp, OF indep]
  have kept: "table' ''01-01-2024'' = Some (''20-06-1445'', ''19-07-1445'')"
    by (rule keeps [OF old])
  from new have added: "table' ''01-02-2024'' = Some (''19-02-1445'', ''17-02-1445'')"
    unfolding stored option.sel .
  show ?thesis
    by (intro conjI exI [of _ table']) (rule old stored kept added again)+
qed

section \<open>Storing a prayer calendar\<close>

lemma digitValue_hexDigit:
  assumes "n < 16"
  shows "digitValue (hexDigit n) = Some n"
proof -
  have "list_all (\<lambda>n. digitValue (hexDigit n) = Some n) [0..<16]"
    by code_simp
  with assms show ?thesis
    unfolding list_all_iff by simp
qed

lemma hexValue_hexDigit: "n < 16 \<Longrightarrow> hexValue (hexDigit n) = n"
  by (simp add: hexValue_def digitValue_hexDigit)

lemma hexValue_zero: "hexValue CHR ''0'' = 0"
  by (simp add: hexValue_def digitValue_def)

lemma readStringBody_escape:
  "readStringBody (escape c @ rest) =
     (case readStringBody rest of None \<Rightarrow> None | Some (s, r) \<Rightarrow> Some (c # s, r))"
proof -
  consider (quote) "c = CHR 0x22" | (backslash) "c = CHR 0x5C" | (b) "c = CHR 0x08"
    | (f) "c = CHR 0x0C" | (n) "c = CHR 0x0A" | (r) "c = CHR 0x0D" | (t) "c = CHR 0x09"
    | (control) "c \<noteq> CHR 0x22" "c \<noteq> CHR 0x5C" "c \<noteq> CHR 0x08" "c \<noteq> CHR 0x0C"
        "c \<noteq> CHR 0x0A" "c \<noteq> CHR 0x0D" "c \<noteq> CHR 0x09" "(of_char c :: nat) < 32"
    | (plain) "c \<noteq> CHR 0x22" "c \<noteq> CHR 0x5C" "c \<noteq> CHR 0x08" "c \<noteq> CHR 0x0C"
        "c \<noteq> CHR 0x0A" "c \<noteq> CHR 0x0D" "c \<noteq> CHR 0x09" "\<not> (of_char c :: nat) < 32"
    by blast
  then show ?thesis
  proof cases
    case quote
    show ?thesis unfolding quote by (simp add: escape_def unescapeChar_def)
  next
    case backslash
    show ?thesis unfolding backslash by (simp add: escape_def unescapeChar_def)
  next
    case b
    show ?thesis unfolding b by (simp add: escape_def unescapeChar_def)
  next
    case f
    show ?thesis unfolding f by (simp add: escape_def unescapeChar_def)
  next
    case n
    show ?thesis unfolding n by (simp add: escape_def unescapeChar_def)
  next
    case r
    show ?thesis unfolding r by (simp add: escape_def unescapeChar_def)
  next
    case t
    show ?thesis unfolding t by (simp add: escape_def unescapeChar_def)
  next
    case control
    then have e: "escape c = [CHR 0x5C, CHR ''u'', CHR ''0'', CHR ''0'',
         hexDigit (of_char c div 16), hexDigit (of_char c mod 16)]"
      by (simp add: escape_def)
    have hi: "hexValue (hexDigit (of_char c div 16)) = (of_char c :: nat) div 16"
      using control(8) by (simp add: hexValue_hexDigit)
    have lo: "hexValue (hexDigit (of_char c mod 16)) = (of_char c :: nat) mod 16"
      by (simp add: hexValue_hexDigit)
    show ?thesis
      unfolding e by (simp add: hexValue_zero hi lo split: option.split)
  next
    case plain
    then have e: "escape c = [c]"
      by (simp add: escape_def)
    show ?thesis
      unfolding e using plain(1,2) by simp
  qed
qed

lemma readStringBody_quoted:
  "readStringBody (concat (map escape s) @ CHR 0x22 # rest) = Some (s, rest)"
  by (induction s) (simp_all add: readStringBody_escape)

lemma readMember_quoted:
  "readMember lead (lead @ quoteJSONString s @ rest) = Some (s, rest)"
  by (simp add: readMember_def startsWith_def quoteJSONString_def readStringBody_quoted)

lemma readTimings_JSON_stringify: "readTimings (JSON_stringify t) = Some t"
  unfolding readTimings_def JSON_stringify_def readMember_quoted option.case prod.case
  by simp

lemma insertData_loop_prefix:
  "\<exists>k \<le> length data.
     fst (insertData_loop accepts table athan_school_id city_id data) =
       table @ map (toInsert athan_school_id city_id) (take k data)
     \<and> (snd (insertData_loop accepts table athan_school_id city_id data) = Inr () \<longrightarrow>
          k = length data)"
proof (induction data arbitrary: table)
  case Nil
  then show ?case by simp
next
  case (Cons entry rest)
  show ?case
  proof (cases "accepts table (toInsert athan_school_id city_id entry)")
    case False
    then have "fst (insertData_loop accepts table athan_school_id city_id (entry # rest)) =
       table @ map (toInsert athan_school_id city_id) (take 0 (entry # rest))
     \<and> (snd (insertData_loop accepts table athan_school_id city_id (entry # rest)) = Inr () \<longrightarrow>
          0 = length (entry # rest))"
      by (simp add: Let_def)
    then show ?thesis by blast
  next
    case True
    from Cons.IH [of "table @ [toInsert athan_school_id city_id entry]"]
    obtain k where k: "k \<le> length rest"
      "fst (insertData_loop accepts (table @ [toInsert athan_school_id city_id entry])
              athan_school_id city_id rest) =
         (table @ [toInsert athan_school_id city_id entry])
           @ map (toInsert athan_school_id city_id) (take k rest)"
      "snd (insertData_loop accepts (table @ [toInsert athan_school_id city_id entry])
              athan_school_id city_id rest) = Inr () \<longrightarrow> k = length rest"
      by blast
    have "Suc k \<le> length (entry # rest)
     \<and> fst (insertData_loop accepts table athan_school_id city_id (entry # rest)) =
       table @ map (toInsert athan_school_id city_id) (take (Suc k) (entry # rest))
     \<and> (snd (insertData_loop accepts table athan_school_id city_id (entry # rest)) = Inr () \<longrightarrow>
          Suc k = length (entry # rest))"
      using True k by (simp add: Let_def)
    then show ?thesis by blast
  qed
qed

lemma insertData_loop_accepted:
  assumes "\<forall>t row. accepts t row"
  shows "insertData_loop accepts table athan_school_id city_id data =
           (table @ map (toInsert athan_school_id city_id) data, Inr ())"
proof (induction data arbitrary: table)
  case Nil
  show ?case by simp
next
  case (Cons entry rest)
  have "accepts table (toInsert athan_school_id city_id entry)"
    using assms by blast
  then show ?case
    by (simp add: Let_def Cons.IH)
qed

lemma toInsert_fun:
  "toInsert athan_school_id city_id =
     (\<lambda>record. (athan_school_id, city_id, formattedDate (date record),
                 JSON_stringify (timings record)))"
  by (simp add: fun_eq_iff toInsert_def)

text \<open>
  Claim C8. \<open>insertData\<close> executes one \<open>INSERT\<close> per record of the batch, in order; as
  long as the database accepts them, the table gains for every record the row
  \<open>(strategyId, cityId, date, data)\<close> in which the date has gone from day-month-year to
  year-month-day (\<open>25-07-2024\<close> is stored as \<open>2024-07-25\<close>) and the data is the
  serialised timing map, a text from which the map can be read back.
\<close>

theorem C8_insertData_rows:
  "((\<forall>t row. accepts t row) \<longrightarrow>
      insertData accepts (Some table) athan_school_id city_id data =
        (Some (table @ map (\<lambda>record. (athan_school_id, city_id, formattedDate (date record),
                                      JSON_stringify (timings record))) data),
         Inr ()))
   \<and> (snd (insertData accepts (Some table) athan_school_id city_id data) = Inr () \<longrightarrow>
        fst (insertData accepts (Some table) athan_school_id city_id data) =
          Some (table @ map (\<lambda>record. (athan_school_id, city_id, formattedDate (date record),
                                        JSON_stringify (timings record))) data))
   \<and> (CHR ''-'' \<notin> set d \<and> CHR ''-'' \<notin> set m \<and> CHR ''-'' \<notin> set y \<longrightarrow>
        formattedDate (d @ ''-'' @ m @ ''-'' @ y) = y @ ''-'' @ m @ ''-'' @ d)
   \<and> formattedDate ''25-07-2024'' = ''2024-07-25''
   \<and> readTimings (JSON_stringify t) = Some t"
proof (intro conjI impI)
  assume "\<forall>t row. accepts t row"
  then show "insertData accepts (Some table) athan_school_id city_id data =
        (Some (table @ map (\<lambda>record. (athan_school_id, city_id, formattedDate (date record),
                                      JSON_stringify (timings record))) data),
         Inr ())"
    by (simp add: insertData_def insertData_loop_accepted toInsert_def)
next
  assume ok: "snd (insertData accepts (Some table) athan_school_id city_id data) = Inr ()"
  obtain k where k: "fst (insertData_loop accepts table athan_school_id city_id data) =
       table @ map (toInsert athan_school_id city_id) (take k data)"
     "snd (insertData_loop accepts table athan_school_id city_id data) = Inr () \<longrightarrow>
          k = length data"
    using insertData_loop_prefix [of data accepts table athan_school_id city_id] by blast
  from ok have "snd (insertData_loop accepts table athan_school_id city_id data) = Inr ()"
    by (simp add: insertData_def split: prod.splits)
  with k have "fst (insertData_loop accepts table athan_school_id city_id data) =
       table @ map (toInsert athan_school_id city_id) data"
    by simp
  then show "fst (insertData accepts (Some table) athan_school_id city_id data) =
          Some (table @ map (\<lambda>record. (athan_school_id, city_id, formattedDate (date record),
                                        JSON_stringify (timings record))) data)"
    by (cases "insertData_loop accepts table athan_school_id city_id data")
       (simp add: insertData_def toInsert_fun)
next
  assume "CHR ''-'' \<notin> set d \<and> CHR ''-'' \<notin> set m \<and> CHR ''-'' \<notin> set y"
  then show "formattedDate (d @ ''-'' @ m @ ''-'' @ y) = y @ ''-'' @ m @ ''-'' @ d"
    using formattedDate_three [of d m y] by blast
next
  show "formattedDate ''25-07-2024'' = ''2024-07-25''"
    by code_simp
next
  show "readTimings (JSON_stringify t) = Some t"
    by (rule readTimings_JSON_stringify)
qed

theorem C8_insertData_rows_witness:
  \<open>snd (insertData demo_accepts (Some []) 4 9 (map normalize demo_month)) = Inr ()
   \<and> fst (insertData demo_accepts (Some []) 4 9 (map normalize demo_month)) =
       Some [(4, 9, ''2024-07-24'',
            ''{"Fajr":"04:51","Shurooq":"06:31","Dhuhr":"13:38","Asr":"17:18","Maghrib":"20:36","Isha":"22:04"}''),
           (4, 9, ''2024-07-25'',
            ''{"Fajr":"04:51","Shurooq":"06:31","Dhuhr":"13:38","Asr":"17:18","Maghrib":"20:36","Isha":"22:04"}'')]
   \<and> insertData (\<lambda>table row. True) (Some []) 4 9 (map normalize demo_month) =
       (Some [(4, 9, ''2024-07-24'',
            ''{"Fajr":"04:51","Shurooq":"06:31","Dhuhr":"13:38","Asr":"17:18","Maghrib":"20:36","Isha":"22:04"}''),
           (4, 9, ''2024-07-25'',
            ''{"Fajr":"04:51","Shurooq":"06:31","Dhuhr":"13:38","Asr":"17:18","Maghrib":"20:36","Isha":"22:04"}'')],
        Inr ())
   \<and> CHR ''-'' \<notin> set ''25'' \<and> CHR ''-'' \<notin> set ''07'' \<and> CHR ''-'' \<notin> set ''2024''
   \<and> readTimings
         ''{"Fajr":"04:51","Shurooq":"06:31","Dhuhr":"13:38","Asr":"17:18","Maghrib":"20:36","Isha":"22:04"}'' =
       Some (timings (normalize (hd demo_month)))\<close>
proof -
  have accepted: "snd (insertData demo_accepts (Some []) 4 9 (map normalize demo_month)) = Inr ()"
    by code_simp
  have always: "\<forall>(table :: athan_calendar) (row :: athan_row). True"
    by simp
  have dashes: "CHR ''-'' \<notin> set ''25'' \<and> CHR ''-'' \<notin> set ''07'' \<and> CHR ''-'' \<notin> set ''2024''"
    by simp
  have rows: \<open>map (\<lambda>record. (4 :: int, 9 :: int, formattedDate (date record),
                                 JSON_stringify (timings record))) (map normalize demo_month) =
       [(4, 9, ''2024-07-24'',
            ''{"Fajr":"04:51","Shurooq":"06:31","Dhuhr":"13:38","Asr":"17:18","Maghrib":"20:36","Isha":"22:04"}''),
           (4, 9, ''2024-07-25'',
            ''{"Fajr":"04:51","Shurooq":"06:31","Dhuhr":"13:38","Asr":"17:18","Maghrib":"20:36","Isha":"22:04"}'')]\<close>
    by code_simp
  have serialised: \<open>JSON_stringify (timings (normalize (hd demo_month))) =
       ''{"Fajr":"04:51","Shurooq":"06:31","Dhuhr":"13:38","Asr":"17:18","Maghrib":"20:36","Isha":"22:04"}''\<close>
    by code_simp
  note c8_strict = C8_insertData_rows [of demo_accepts "[]" 4 9 "map normalize demo_month"
                   "''25''" "''07''" "''2024''" "timings (normalize (hd demo_month))"]
  note c8_lenient = C8_insertData_rows [of "\<lambda>table row. True" "[]" 4 9 "map normalize demo_month"
                   "''25''" "''07''" "''2024''" "timings (normalize (hd demo_month))"]
  from c8_strict [THEN conjunct2, THEN conjunct1, THEN mp, OF accepted]
  have stored: \<open>fst (insertData demo_accepts (Some []) 4 9 (map normalize demo_month)) =
       Some [(4, 9, ''2024-07-24'',
            ''{"Fajr":"04:51","Shurooq":"06:31","Dhuhr":"13:38","Asr":"17:18","Maghrib":"20:36","Isha":"22:04"}''),
           (4, 9, ''2024-07-25'',
            ''{"Fajr":"04:51","Shurooq":"06:31","Dhuhr":"13:38","Asr":"17:18","Maghrib":"20:36","Isha":"22:04"}'')]\<close>
    unfolding rows append_Nil .
  from c8_lenient [THEN conjunct1, THEN mp, OF always]
  have stored_any: \<open>insertData (\<lambda>table row. True) (Some []) 4 9 (map normalize demo_month) =
       (Some [(4, 9, ''2024-07-24'',
            ''{"Fajr":"04:51","Shurooq":"06:31","Dhuhr":"13:38","Asr":"17:18","Maghrib":"20:36","Isha":"22:04"}''),
           (4, 9, ''2024-07-25'',
            ''{"Fajr":"04:51","Shurooq":"06:31","Dhuhr":"13:38","Asr":"17:18","Maghrib":"20:36","Isha":"22:04"}'')],
        Inr ())\<close>
    unfolding rows append_Nil .
  from c8_strict [THEN conjunct2, THEN conjunct2, THEN conjunct2, THEN conjunct2]
  have read_back: \<open>readTimings
         ''{"Fajr":"04:51","Shurooq":"06:31","Dhuhr":"13:38","Asr":"17:18","Maghrib":"20:36","Isha":"22:04"}'' =
       Some (timings (normalize (hd demo_month)))\<close>
    unfolding serialised .
  from accepted stored stored_any dashes read_back show ?thesis
    by (intro conjI) (erule conjunct1 conjunct2 | assumption | (drule conjunct2, erule conjunct1 conjunct2))+
qed

end
